theory Spec2Isabelle
  imports Complex_Main "HOL-Library.Word"
begin

section \<open>AdventureEngine: the turn orchestrator, its scene cache and its decoders\<close>

text \<open>
  A shallow embedding of \<^verbatim>\<open>App.tsx\<close> (the orchestrator: \<^verbatim>\<open>decodeAudioData\<close>,
  \<^verbatim>\<open>handleVisualUpdate\<close>, \<^verbatim>\<open>handleStartGame\<close>, \<^verbatim>\<open>executeCommand\<close>), of the
  service module (\<^verbatim>\<open>generateAdventureStart\<close>, \<^verbatim>\<open>processGameAction\<close>,
  \<^verbatim>\<open>generateSceneImage\<close>, \<^verbatim>\<open>detectSceneHotspots\<close>) and of the interfaces of the
  types module.

  The remote model is not part of the program. What it answers is a parameter of the
  embedding (\<open>services\<close> below); everything the program does with an answer, including
  every \<^verbatim>\<open>try\<close>/\<^verbatim>\<open>catch\<close>, is modelled.
\<close>

subsection \<open>Values produced by \<^verbatim>\<open>JSON.parse\<close>\<close>

text \<open>
  \<open>JObj\<close> lists the properties of a parsed object, one pair for each key. A property
  that is not there reads as \<^verbatim>\<open>undefined\<close>, which is \<open>None\<close> in \<open>get_prop\<close>.
\<close>

datatype json =
    JNull
  | JBool bool
  | JNum real
  | JStr string
  | JArr "json list"
  | JObj "(string \<times> json) list"

text \<open>JavaScript truthiness of a parsed value.\<close>

fun truthy :: "json \<Rightarrow> bool" where
  "truthy JNull = False"
| "truthy (JBool b) = b"
| "truthy (JNum x) = (x \<noteq> 0)"
| "truthy (JStr s) = (s \<noteq> [])"
| "truthy (JArr xs) = True"
| "truthy (JObj kvs) = True"

text \<open>
  Property access \<^verbatim>\<open>v.k\<close> for the keys the program reads (\<^verbatim>\<open>name\<close>, \<^verbatim>\<open>box\<close>,
  \<^verbatim>\<open>hotspots\<close>): only an object has them. The program never reads a property of
  \<^verbatim>\<open>null\<close> through this function; where it would, the model has the \<^verbatim>\<open>TypeError\<close>
  written out.
\<close>

fun get_prop :: "json \<Rightarrow> string \<Rightarrow> json option" where
  "get_prop (JObj kvs) k = map_of kvs k"
| "get_prop v k = None"

text \<open>JavaScript truthiness of a \<^verbatim>\<open>string | null | undefined\<close>.\<close>

fun truthy_str :: "string option \<Rightarrow> bool" where
  "truthy_str None = False"
| "truthy_str (Some s) = (s \<noteq> [])"

text \<open>The exceptions that can leave a function of the program.\<close>

datatype js_error = TypeError | RangeError | NotSupportedError

subsection \<open>Narration audio: \<^verbatim>\<open>decodeAudioData\<close>\<close>

type_synonym byte = "8 word"
type_synonym int16 = "16 word"

record AudioBuffer =
  numberOfChannels :: nat
  sampleRate :: nat
  channelData :: "real list"

text \<open>
  \<^verbatim>\<open>new Uint8Array(n + 1)\<close> is zero-filled and \<^verbatim>\<open>newData.set(data)\<close> copies \<open>data\<close> to
  its front: one zero byte is appended.
\<close>

definition pad_even :: "byte list \<Rightarrow> byte list" where
  "pad_even data = (if length data mod 2 \<noteq> 0 then data @ [0] else data)"

text \<open>
  \<^verbatim>\<open>new Int16Array(buffer)\<close>: the bytes in pairs, low byte first (the byte order of
  the platforms the program runs on, and the one the specification names). A buffer of
  odd length makes the constructor throw a \<^verbatim>\<open>RangeError\<close>.
\<close>

fun int16_view :: "byte list \<Rightarrow> js_error + int16 list" where
  "int16_view [] = Inr []"
| "int16_view [b] = Inl RangeError"
| "int16_view (lo # hi # rest) =
     (case int16_view rest of
        Inl e \<Rightarrow> Inl e
      | Inr ws \<Rightarrow> Inr (word_cat hi lo # ws))"

text \<open>
  One sample: \<^verbatim>\<open>dataInt16[i] / 32768.0\<close>, stored into a \<^verbatim>\<open>Float32Array\<close>. The
  quotient of a 16-bit integer by \<open>2 ^ 15\<close> has at most 16 significant bits, so the
  double division and the rounding to single precision are both exact and the stored
  number is the real quotient.
\<close>

definition sample_of :: "int16 \<Rightarrow> real" where
  "sample_of w = real_of_int (sint w) / 32768"

text \<open>
  \<^verbatim>\<open>ctx.createBuffer(numChannels, frameCount, sampleRate)\<close> refuses a frame count of
  zero with a \<^verbatim>\<open>NotSupportedError\<close> (Web Audio requires a length of at least 1).
\<close>

definition decodeAudioData :: "byte list \<Rightarrow> js_error + AudioBuffer" where
  "decodeAudioData data =
     (case int16_view (pad_even data) of
        Inl e \<Rightarrow> Inl e
      | Inr dataInt16 \<Rightarrow>
          (let sampleRate = 24000;
               numChannels = 1;
               frameCount = length dataInt16
           in if frameCount = 0 then Inl NotSupportedError
              else Inr \<lparr>numberOfChannels = numChannels, sampleRate = sampleRate,
                        channelData = map sample_of dataInt16\<rparr>))"

subsection \<open>Hotspot detection: \<^verbatim>\<open>detectSceneHotspots\<close>\<close>

text \<open>What the detection request comes back with.\<close>

datatype hotspot_reply =
    HsCallFailed        \<comment> \<open>\<^verbatim>\<open>generateContent\<close> rejects\<close>
  | HsNoText            \<comment> \<open>\<^verbatim>\<open>response.text\<close> is undefined or empty\<close>
  | HsUnparseable       \<comment> \<open>\<^verbatim>\<open>JSON.parse\<close> throws\<close>
  | HsParsed json       \<comment> \<open>\<^verbatim>\<open>JSON.parse\<close> returns this value\<close>

text \<open>
  The filter's callback:
  \<^verbatim>\<open>h && h.name && Array.isArray(h.box) && h.box.length === 4\<close>.
\<close>

definition hotspot_kept :: "json \<Rightarrow> bool" where
  "hotspot_kept h =
     (truthy h \<and>
      (case get_prop h ''name'' of None \<Rightarrow> False | Some n \<Rightarrow> truthy n) \<and>
      (case get_prop h ''box'' of Some (JArr b) \<Rightarrow> length b = 4 | _ \<Rightarrow> False))"

text \<open>
  From \<^verbatim>\<open>const result = JSON.parse(text)\<close> on. \<^verbatim>\<open>result.hotspots\<close> of \<^verbatim>\<open>null\<close> and
  \<^verbatim>\<open>.filter\<close> of a value that is not an array throw a \<^verbatim>\<open>TypeError\<close>; both are inside
  the \<^verbatim>\<open>try\<close> and end in \<^verbatim>\<open>return []\<close>.
\<close>

definition filter_hotspots :: "json \<Rightarrow> json list" where
  "filter_hotspots result =
     (case result of
        JNull \<Rightarrow> []
      | _ \<Rightarrow>
         (case get_prop result ''hotspots'' of
            None \<Rightarrow> []
          | Some raw \<Rightarrow>
              if \<not> truthy raw then []
              else (case raw of JArr rawHotspots \<Rightarrow> filter hotspot_kept rawHotspots | _ \<Rightarrow> [])))"


subsection \<open>The interfaces of the types module\<close>

text \<open>
  \<^verbatim>\<open>Hotspot\<close> is an interface, checked at compile time only: at run time a hotspot is
  whatever passed the filter of \<^verbatim>\<open>detectSceneHotspots\<close>, so the embedding keeps the
  parsed values.
\<close>

type_synonym Hotspot = json

datatype LogType = narrator | command | error

text \<open>\<^verbatim>\<open>LogEntry\<close>: the fields \<^verbatim>\<open>type\<close> and \<^verbatim>\<open>text\<close>.\<close>

record LogEntry =
  entry_type :: LogType
  entry_text :: string

text \<open>
  \<^verbatim>\<open>SceneData\<close>; the fields carry the suffix \<open>_sd\<close> to keep them apart from those of
  \<^verbatim>\<open>GameState\<close> and \<^verbatim>\<open>AdventureResponse\<close>.
\<close>

record SceneData =
  id_sd :: string
  visualDescription_sd :: string
  imageUrl_sd :: string
  hotspots_sd :: "Hotspot list"
  interactables_sd :: "string list"

text \<open>
  \<^verbatim>\<open>sceneCache\<close> is a plain object used as a dictionary. A read \<^verbatim>\<open>cache[k]\<close> that
  finds no own property goes on to the prototype, and a write \<^verbatim>\<open>cache[k] = v\<close> can meet
  a setter there, so the object is its own properties together with its prototype:
  \<open>None\<close> for \<^verbatim>\<open>Object.prototype\<close>, \<open>Some a\<close> for an artifact that the setter of
  \<^verbatim>\<open>__proto__\<close> has put in its place.
\<close>

record scene_cache =
  own_props :: "string \<rightharpoonup> SceneData"
  prototype :: "SceneData option"

text \<open>The properties of \<^verbatim>\<open>Object.prototype\<close> (ECMAScript, with its Annex B).\<close>

definition object_prototype_names :: "string list" where
  "object_prototype_names =
     [''constructor'', ''__defineGetter__'', ''__defineSetter__'', ''hasOwnProperty'',
      ''__lookupGetter__'', ''__lookupSetter__'', ''isPrototypeOf'', ''propertyIsEnumerable'',
      ''toString'', ''valueOf'', ''__proto__'', ''toLocaleString'']"

text \<open>
  What a read of the cache gives: \<^verbatim>\<open>undefined\<close>, an artifact, or an inherited value that
  is no artifact (a function, \<^verbatim>\<open>Object.prototype\<close>, a string or an array), of which only
  the truthiness matters: it has neither \<^verbatim>\<open>imageUrl\<close> nor \<^verbatim>\<open>hotspots\<close>.
\<close>

datatype looked_up = Undefined | Cached SceneData | Inherited bool

fun truthy_looked_up :: "looked_up \<Rightarrow> bool" where
  "truthy_looked_up Undefined = False"
| "truthy_looked_up (Cached a) = True"
| "truthy_looked_up (Inherited t) = t"

text \<open>
  \<^verbatim>\<open>cache[k]\<close>: the own property; else, through an artifact as prototype, its five
  fields, and through the getter of \<^verbatim>\<open>__proto__\<close> the artifact itself; else the
  properties of \<^verbatim>\<open>Object.prototype\<close>, all of them truthy.
\<close>

definition cache_get :: "scene_cache \<Rightarrow> string \<Rightarrow> looked_up" where
  "cache_get c k =
     (case own_props c k of
        Some a \<Rightarrow> Cached a
      | None \<Rightarrow>
         (case prototype c of
            None \<Rightarrow> if k \<in> set object_prototype_names then Inherited True else Undefined
          | Some art \<Rightarrow>
              if k = ''id'' then Inherited (id_sd art \<noteq> [])
              else if k = ''visualDescription'' then Inherited (visualDescription_sd art \<noteq> [])
              else if k = ''imageUrl'' then Inherited (imageUrl_sd art \<noteq> [])
              else if k = ''hotspots'' \<or> k = ''interactables'' then Inherited True
              else if k = ''__proto__'' then Cached art
              else if k \<in> set object_prototype_names then Inherited True
              else Undefined))"

text \<open>
  \<^verbatim>\<open>{ ...cache }\<close> copies the own properties into a fresh object, whose prototype is
  \<^verbatim>\<open>Object.prototype\<close>.
\<close>

definition cache_spread :: "scene_cache \<Rightarrow> scene_cache" where
  "cache_spread c = \<lparr>own_props = own_props c, prototype = None\<rparr>"

text \<open>
  \<^verbatim>\<open>cache[k] = v\<close> with an artifact \<open>v\<close>: an own property is overwritten; a new key
  becomes an own property, also where it shadows a method of \<^verbatim>\<open>Object.prototype\<close>;
  but \<^verbatim>\<open>__proto__\<close>, when it is no own property, is an accessor of
  \<^verbatim>\<open>Object.prototype\<close>, and its setter makes \<open>v\<close> the prototype and adds no key.
\<close>

definition cache_set :: "scene_cache \<Rightarrow> string \<Rightarrow> SceneData \<Rightarrow> scene_cache" where
  "cache_set c k v =
     (if k = ''__proto__'' \<and> own_props c k = None then c\<lparr>prototype := Some v\<rparr>
      else c\<lparr>own_props := (own_props c)(k \<mapsto> v)\<rparr>)"

text \<open>The object literal \<^verbatim>\<open>{}\<close>.\<close>

definition empty_cache :: scene_cache where
  "empty_cache = \<lparr>own_props = Map.empty, prototype = None\<rparr>"

record GameState =
  isPlaying :: bool
  currentSceneId :: "string option"
  inventory :: "string list"
  history :: "LogEntry list"
  imageUrl :: "string option"
  hotspots :: "Hotspot list"
  isLoading :: bool
  loadingMessage :: string
  gameOver :: bool
  theme :: string
  sceneCache :: scene_cache

text \<open>\<^verbatim>\<open>AdventureResponse\<close>; an optional field that is left out is \<open>None\<close>.\<close>

record AdventureResponse =
  narrative :: string
  scene_id :: string
  visual_description :: string
  trigger_visual_update :: bool
  interactables :: "string list"
  inventory_add :: "string option"
  inventory_remove :: "string option"
  is_game_over :: "bool option"

definition INITIAL_STATE :: GameState where
  "INITIAL_STATE =
     \<lparr>isPlaying = False, currentSceneId = None, inventory = [], history = [],
      imageUrl = None, hotspots = [], isLoading = False, loadingMessage = [],
      gameOver = False, theme = [], sceneCache = empty_cache\<rparr>"

subsection \<open>The remote services\<close>

text \<open>
  What a narrative request comes back with. \<^verbatim>\<open>JSON.parse(text) as AdventureResponse\<close>
  is an unchecked cast: a text that parses is returned as it is. The embedding has two
  kinds of parsed text, an object of the declared shape and the literal \<^verbatim>\<open>null\<close>;
  other values of another shape are not modelled.
\<close>

datatype narrative_reply =
    CallFailed                      \<comment> \<open>\<^verbatim>\<open>generateContent\<close> rejects\<close>
  | EmptyText                       \<comment> \<open>\<^verbatim>\<open>response.text\<close> is undefined or empty\<close>
  | Unparseable                     \<comment> \<open>\<^verbatim>\<open>JSON.parse\<close> throws\<close>
  | ParsedNull                      \<comment> \<open>the text is \<^verbatim>\<open>null\<close>\<close>
  | ParsedResponse AdventureResponse

text \<open>What an image request comes back with.\<close>

datatype image_reply =
    ImgCallFailed                   \<comment> \<open>\<^verbatim>\<open>generateContent\<close> rejects\<close>
  | ImgNoInlineData                 \<comment> \<open>no first part, or a part without \<^verbatim>\<open>inlineData\<close>\<close>
  | ImgInlineData string string     \<comment> \<open>\<^verbatim>\<open>mimeType\<close> and \<^verbatim>\<open>data\<close> of the first part\<close>

text \<open>
  The answers of the remote model, as functions of what each request is built from.
\<close>

record services =
  adventureStart :: "string \<Rightarrow> narrative_reply"
  gameAction :: "string \<Rightarrow> string \<Rightarrow> string list \<Rightarrow> string option \<Rightarrow> narrative_reply"
  sceneImage :: "string \<Rightarrow> image_reply"
  sceneHotspots :: "string \<Rightarrow> string list \<Rightarrow> hotspot_reply"

text \<open>
  The log of one run: each request sent to a service, each entry into
  \<^verbatim>\<open>handleVisualUpdate\<close>, and the call of \<^verbatim>\<open>playAudio\<close> (not awaited; whether it goes
  on to speech synthesis depends on the mute switch and the audio context, which are not
  part of \<^verbatim>\<open>GameState\<close>).
\<close>

datatype event =
    NarrativeStart string
  | NarrativeAction string string "string list" "string option"
  | VisualUpdate string string bool "string list"
  | SceneImage string
  | SceneHotspots string "string list"
  | PlayAudio string

fun network_call :: "event \<Rightarrow> bool" where
  "network_call (VisualUpdate a b c d) = False"
| "network_call (PlayAudio t) = False"
| "network_call e = True"

text \<open>
  Each service function returns its result and the requests it sent. All of them catch
  what the request or the parsing throws, so none of them raises.
\<close>

definition generateAdventureStart :: "services \<Rightarrow> string \<Rightarrow> AdventureResponse option \<times> event list" where
  "generateAdventureStart sv theme' =
     (let fallback = \<lparr>narrative = ''The system is rebooting...'', scene_id = ''error_room'',
                      visual_description = ''Static screen'', trigger_visual_update = True,
                      interactables = [], inventory_add = None, inventory_remove = None,
                      is_game_over = None\<rparr>
      in (case adventureStart sv theme' of
            CallFailed \<Rightarrow> Some fallback
          | EmptyText \<Rightarrow> Some fallback
          | Unparseable \<Rightarrow> Some fallback
          | ParsedNull \<Rightarrow> None
          | ParsedResponse r \<Rightarrow> Some r,
          [NarrativeStart theme']))"

text \<open>
  The object returned by the \<^verbatim>\<open>catch\<close> of \<^verbatim>\<open>processGameAction\<close>;
  \<^verbatim>\<open>currentSceneId || "unknown"\<close> takes the sentinel for \<^verbatim>\<open>null\<close> and for the empty
  string.
\<close>

definition action_fallback :: "string option \<Rightarrow> AdventureResponse" where
  "action_fallback currentSceneId' =
     \<lparr>narrative = ''I didn'' @ [CHR 0x27] @ ''t quite get that.'',
      scene_id = (case currentSceneId' of
                    None \<Rightarrow> ''unknown''
                  | Some c \<Rightarrow> if c \<noteq> [] then c else ''unknown''),
      visual_description = ''No change.'', trigger_visual_update = False,
      interactables = [], inventory_add = None, inventory_remove = None,
      is_game_over = None\<rparr>"

definition processGameAction :: "services \<Rightarrow> string \<Rightarrow> string \<Rightarrow> string list \<Rightarrow> string option \<Rightarrow> AdventureResponse option \<times> event list" where
  "processGameAction sv action historyContext inventory' currentSceneId' =
     (case gameAction sv action historyContext inventory' currentSceneId' of
        CallFailed \<Rightarrow> Some (action_fallback currentSceneId')
      | EmptyText \<Rightarrow> Some (action_fallback currentSceneId')
      | Unparseable \<Rightarrow> Some (action_fallback currentSceneId')
      | ParsedNull \<Rightarrow> None
      | ParsedResponse r \<Rightarrow> Some r,
      [NarrativeAction action historyContext inventory' currentSceneId'])"

definition generateSceneImage :: "services \<Rightarrow> string \<Rightarrow> string option \<times> event list" where
  "generateSceneImage sv visualDescription =
     (case sceneImage sv visualDescription of
        ImgCallFailed \<Rightarrow> None
      | ImgNoInlineData \<Rightarrow> None
      | ImgInlineData mimeType dat \<Rightarrow> Some (''data:'' @ mimeType @ '';base64,'' @ dat),
      [SceneImage visualDescription])"

definition detectSceneHotspots :: "services \<Rightarrow> string \<Rightarrow> string list \<Rightarrow> Hotspot list \<times> event list" where
  "detectSceneHotspots sv imageBase64 items =
     (if length items = 0 then ([], [])
      else (case sceneHotspots sv imageBase64 items of
              HsCallFailed \<Rightarrow> []
            | HsNoText \<Rightarrow> []
            | HsUnparseable \<Rightarrow> []
            | HsParsed result \<Rightarrow> filter_hotspots result,
            [SceneHotspots imageBase64 items]))"

subsection \<open>The orchestrator\<close>

text \<open>
  A handler of the component sees two states: \<open>g\<close>, the \<^verbatim>\<open>gameState\<close> of the render
  the handler was created in, and \<open>p\<close>, the \<^verbatim>\<open>prev\<close> that a functional
  \<^verbatim>\<open>setGameState\<close> receives. Every read of \<^verbatim>\<open>gameState.x\<close> in the source reads
  \<open>g\<close>, every \<^verbatim>\<open>...prev\<close> copies \<open>p\<close>. One handler runs at a time and starts from
  the rendered state, so \<open>p\<close> starts as \<open>g\<close>.

  The audio context and the mute switch are state of the component that only the
  narration reads; \<^verbatim>\<open>initAudio\<close> acts on them only and is left out.

  \<^verbatim>\<open>handleVisualUpdate\<close> returns the pair of \<^verbatim>\<open>image\<close> and \<^verbatim>\<open>hotspots\<close>, the state
  after its \<^verbatim>\<open>setGameState\<close> calls, and its log. Its first test is
  \<^verbatim>\<open>!triggerUpdate && gameState.sceneCache[sceneId]\<close>, on whatever the read of the cache
  gives; of an inherited value that is no artifact, \<^verbatim>\<open>cached.imageUrl\<close> and
  \<^verbatim>\<open>cached.hotspots\<close> are both \<^verbatim>\<open>undefined\<close>, the \<open>None\<close> of the result. \<^verbatim>\<open>!image\<close>
  holds for \<^verbatim>\<open>null\<close> and for the empty string.
\<close>

definition handleVisualUpdate :: "services \<Rightarrow> GameState \<Rightarrow> GameState \<Rightarrow> string \<Rightarrow> string \<Rightarrow> bool \<Rightarrow> string list \<Rightarrow> (string option \<times> Hotspot list option) \<times> GameState \<times> event list" where
  "handleVisualUpdate sv g p sceneId visualDesc triggerUpdate interactables' =
     (let entered = VisualUpdate sceneId visualDesc triggerUpdate interactables'
      in if \<not> triggerUpdate \<and> truthy_looked_up (cache_get (sceneCache g) sceneId) then
           (case cache_get (sceneCache g) sceneId of
              Cached cached \<Rightarrow>
                ((Some (imageUrl_sd cached), Some (hotspots_sd cached)), p, [entered])
            | _ \<Rightarrow> ((None, None), p, [entered]))
         else
           (let p1 = p\<lparr>loadingMessage := ''Rendering Scene...''\<rparr>;
                (image, ev1) = generateSceneImage sv visualDesc
            in case image of
                 None \<Rightarrow> ((None, Some []), p1, entered # ev1)
               | Some img \<Rightarrow>
                   if img = [] then ((None, Some []), p1, entered # ev1)
                   else if length interactables' > 0 then
                     (let p2 = p1\<lparr>loadingMessage := ''Analyzing Objects...''\<rparr>;
                          (hs, ev2) = detectSceneHotspots sv img interactables'
                      in ((Some img, Some hs), p2, entered # ev1 @ ev2))
                   else ((Some img, Some []), p1, entered # ev1)))"

text \<open>What a handler leaves behind: the state, the log, and the error it rejected with.\<close>

record run =
  final :: GameState
  calls :: "event list"
  raised :: "js_error option"

text \<open>
  \<^verbatim>\<open>handleStartGame\<close>. A \<^verbatim>\<open>null\<close> response makes \<^verbatim>\<open>response.scene_id\<close> throw; nothing
  catches it. The cache becomes an object literal with a computed key, which is an own
  property for every key. The trigger is forced, so the policy never answers from the
  cache and its hotspots are never \<^verbatim>\<open>undefined\<close> (lemma \<open>handleVisualUpdate_forced\<close>):
  the case of \<open>None\<close> hotspots is never taken.
\<close>

definition handleStartGame :: "services \<Rightarrow> GameState \<Rightarrow> string \<Rightarrow> run" where
  "handleStartGame sv g theme' =
     (let p0 = g\<lparr>isPlaying := True, isLoading := True,
                  loadingMessage := ''Initializing World...'', theme := theme'\<rparr>;
          (response, ev0) = generateAdventureStart sv theme'
      in case response of
           None \<Rightarrow> \<lparr>final = p0, calls = ev0, raised = Some TypeError\<rparr>
         | Some r \<Rightarrow>
            (let ((image, hotspots_opt), p1, ev1) =
                   handleVisualUpdate sv g p0 (scene_id r) (visual_description r) True
                     (interactables r)
             in case hotspots_opt of
                  None \<Rightarrow> \<lparr>final = p1, calls = ev0 @ ev1, raised = Some TypeError\<rparr>
                | Some hotspots' \<Rightarrow>
                   \<lparr>final = p1\<lparr>
                      isLoading := False,
                      currentSceneId := Some (scene_id r),
                      imageUrl := image,
                      hotspots := hotspots',
                      history := [\<lparr>entry_type = narrator, entry_text = narrative r\<rparr>],
                      inventory := (case inventory_add r of
                                      None \<Rightarrow> []
                                    | Some a \<Rightarrow> if a \<noteq> [] then [a] else []),
                      sceneCache :=
                        \<lparr>own_props = [scene_id r \<mapsto>
                           \<lparr>id_sd = scene_id r,
                            visualDescription_sd = visual_description r,
                            imageUrl_sd = (case image of None \<Rightarrow> [] | Some img \<Rightarrow> img),
                            hotspots_sd = hotspots',
                            interactables_sd = interactables r\<rparr>],
                         prototype = None\<rparr>\<rparr>,
                    calls = ev0 @ ev1 @ [PlayAudio (narrative r)],
                    raised = None\<rparr>))"

text \<open>\<^verbatim>\<open>xs.slice(-n)\<close> and \<^verbatim>\<open>xs.join(sep)\<close>.\<close>

definition slice_last :: "nat \<Rightarrow> 'a list \<Rightarrow> 'a list" where
  "slice_last n xs = drop (length xs - n) xs"

fun join :: "string \<Rightarrow> string list \<Rightarrow> string" where
  "join sep [] = []"
| "join sep [x] = x"
| "join sep (x # y # ys) = x @ sep @ join sep (y # ys)"

text \<open>
  The block \<^verbatim>\<open>// Handle Inventory\<close> of \<^verbatim>\<open>executeCommand\<close>: the copy, the guarded
  \<^verbatim>\<open>push\<close>, the guarded \<^verbatim>\<open>filter\<close>. An item name that is left out or empty is falsy and
  skips its branch.
\<close>

definition update_inventory :: "string list \<Rightarrow> string option \<Rightarrow> string option \<Rightarrow> string list" where
  "update_inventory held add' remove' =
     (let newInventory = held;
          newInventory = (case add' of
                            None \<Rightarrow> newInventory
                          | Some a \<Rightarrow> if a \<noteq> [] \<and> a \<notin> set newInventory
                                      then newInventory @ [a] else newInventory)
      in case remove' of
           None \<Rightarrow> newInventory
         | Some x \<Rightarrow> if x \<noteq> [] then filter (\<lambda>i. i \<noteq> x) newInventory else newInventory)"

text \<open>
  \<^verbatim>\<open>executeCommand\<close>. The guard returns before anything is set or sent. A \<^verbatim>\<open>null\<close>
  response makes \<^verbatim>\<open>response.inventory_add\<close> throw after the state was set to loading,
  and \<^verbatim>\<open>undefined\<close> hotspots make \<^verbatim>\<open>visualResult.hotspots.length\<close> throw after the
  policy has returned; nothing catches either (\<open>Inl\<close> below is the second). The commit
  copies the own properties of \<^verbatim>\<open>prev.sceneCache\<close> and writes the artifact into the
  copy.
\<close>

definition executeCommand :: "services \<Rightarrow> GameState \<Rightarrow> string \<Rightarrow> run" where
  "executeCommand sv g fullCommand =
     (if isLoading g \<or> gameOver g then \<lparr>final = g, calls = [], raised = None\<rparr>
      else
       (let newHistory = history g @ [\<lparr>entry_type = command, entry_text = ''> '' @ fullCommand\<rparr>];
            p0 = g\<lparr>history := newHistory, isLoading := True, loadingMessage := ''Thinking...''\<rparr>;
            historyContext = join [CHR 0x0A] (map entry_text (slice_last 5 (history g)));
            (response, ev0) =
               processGameAction sv fullCommand historyContext (inventory g) (currentSceneId g)
        in case response of
             None \<Rightarrow> \<lparr>final = p0, calls = ev0, raised = Some TypeError\<rparr>
           | Some r \<Rightarrow>
              (let newInventory =
                     update_inventory (inventory g) (inventory_add r) (inventory_remove r);
                   needsUpdate =
                     (Some (scene_id r) \<noteq> currentSceneId g \<or> trigger_visual_update r);
                   visuals =
                     (if needsUpdate then
                        (let ((image, hotspots_opt), p', ev) =
                               handleVisualUpdate sv g p0 (scene_id r) (visual_description r)
                                 (trigger_visual_update r) (interactables r)
                         in case hotspots_opt of
                              None \<Rightarrow> Inl (p', ev)
                            | Some hotspots' \<Rightarrow>
                                Inr ((if truthy_str image then image else imageUrl g,
                                      if length hotspots' > 0 then hotspots' else []), p', ev))
                      else Inr ((imageUrl g, hotspots g), p0, []))
               in case visuals of
                    Inl (p', ev) \<Rightarrow> \<lparr>final = p', calls = ev0 @ ev, raised = Some TypeError\<rparr>
                  | Inr ((newImage, newHotspots), p1, ev1) \<Rightarrow>
                     (let nextCache =
                            (case newImage of
                               None \<Rightarrow> cache_spread (sceneCache p1)
                             | Some img \<Rightarrow>
                                 if img \<noteq> [] then
                                   cache_set (cache_spread (sceneCache p1)) (scene_id r)
                                     \<lparr>id_sd = scene_id r,
                                      visualDescription_sd = visual_description r,
                                      imageUrl_sd = img,
                                      hotspots_sd = newHotspots,
                                      interactables_sd = interactables r\<rparr>
                                 else cache_spread (sceneCache p1))
                      in \<lparr>final = p1\<lparr>
                             isLoading := False,
                             history := newHistory @
                               [\<lparr>entry_type = narrator, entry_text = narrative r\<rparr>],
                             inventory := newInventory,
                             currentSceneId := Some (scene_id r),
                             imageUrl := newImage,
                             hotspots := newHotspots,
                             gameOver := (case is_game_over r of None \<Rightarrow> False | Some b \<Rightarrow> b),
                             sceneCache := nextCache\<rparr>,
                           calls = ev0 @ ev1 @ [PlayAudio (narrative r)],
                           raised = None\<rparr>))))"

text \<open>
  The response of a turn: what \<^verbatim>\<open>processGameAction\<close> returns for the request that
  \<^verbatim>\<open>executeCommand\<close> builds in state \<open>g\<close>.
\<close>

definition turn_response :: "services \<Rightarrow> GameState \<Rightarrow> string \<Rightarrow> AdventureResponse option" where
  "turn_response sv g fullCommand =
     fst (processGameAction sv fullCommand
            (join [CHR 0x0A] (map entry_text (slice_last 5 (history g))))
            (inventory g) (currentSceneId g))"

subsection \<open>The component\<close>

text \<open>
  \<^verbatim>\<open>executeCommand\<close> is a closure of the component: it is reached through the three
  handlers below and through nothing else, and these are bound in the main layout,
  which the component renders only after \<^verbatim>\<open>if (!gameState.isPlaying) return\<close> the start
  screen. The start screen binds the theme form alone.
\<close>

datatype Verb = Give | Open | Close | PickUp | LookAt | TalkTo | Use | Push | Pull | WalkTo

fun verb_text :: "Verb \<Rightarrow> string" where
  "verb_text Give = ''Give''"
| "verb_text Open = ''Open''"
| "verb_text Close = ''Close''"
| "verb_text PickUp = ''Pick up''"
| "verb_text LookAt = ''Look at''"
| "verb_text TalkTo = ''Talk to''"
| "verb_text Use = ''Use''"
| "verb_text Push = ''Push''"
| "verb_text Pull = ''Pull''"
| "verb_text WalkTo = ''Walk to''"

record AppState =
  gameState :: GameState
  selectedVerb :: "Verb option"
  selectedItem :: "string option"
  customInput :: string

text \<open>What an event of the user interface leaves behind.\<close>

record app_run =
  app :: AppState
  sent :: "event list"
  failed :: "js_error option"

definition idle :: "AppState \<Rightarrow> app_run" where
  "idle a = \<lparr>app = a, sent = [], failed = None\<rparr>"

text \<open>
  A call of \<^verbatim>\<open>executeCommand\<close> from a handler: the three resets at its end are reached
  when it neither returned at the guard nor threw.
\<close>

definition call_executeCommand :: "services \<Rightarrow> AppState \<Rightarrow> string \<Rightarrow> app_run" where
  "call_executeCommand sv a fullCommand =
     (let r = executeCommand sv (gameState a) fullCommand;
          a' = a\<lparr>gameState := final r\<rparr>
      in \<lparr>app = (if \<not> isLoading (gameState a) \<and> \<not> gameOver (gameState a) \<and> raised r = None
                 then a'\<lparr>selectedVerb := None, selectedItem := None, customInput := []\<rparr>
                 else a'),
          sent = calls r, failed = raised r\<rparr>)"

text \<open>
  \<^verbatim>\<open>handleSceneClick\<close>; \<open>targetName\<close> is \<open>Some t\<close> when the click hit a hotspot, with
  \<open>t\<close> the text its (truthy) name has in a template literal, and \<open>None\<close> otherwise.
\<close>

definition handleSceneClick :: "services \<Rightarrow> AppState \<Rightarrow> string option \<Rightarrow> app_run" where
  "handleSceneClick sv a targetName =
     (if isLoading (gameState a) \<or> gameOver (gameState a) then idle a
      else case targetName of
             Some t \<Rightarrow>
               (case (selectedVerb a, selectedItem a) of
                  (Some v, Some item) \<Rightarrow>
                    if v = Use \<and> item \<noteq> []
                    then call_executeCommand sv a (''Use '' @ item @ '' on '' @ t)
                    else call_executeCommand sv a (verb_text v @ '' '' @ t)
                | (Some v, None) \<Rightarrow> call_executeCommand sv a (verb_text v @ '' '' @ t)
                | (None, _) \<Rightarrow> call_executeCommand sv a (''Look at '' @ t))
           | None \<Rightarrow> call_executeCommand sv a ''Look at surroundings'')"

text \<open>
  \<^verbatim>\<open>customInput.trim()\<close> is empty when the input holds white space only; of the white
  space that \<^verbatim>\<open>trim\<close> removes, the byte strings of the embedding have the ASCII part.
\<close>

definition white_space :: "char list" where
  "white_space = [CHR 0x09, CHR 0x0A, CHR 0x0B, CHR 0x0C, CHR 0x0D, CHR 0x20]"

definition handleCustomCommandSubmit :: "services \<Rightarrow> AppState \<Rightarrow> app_run" where
  "handleCustomCommandSubmit sv a =
     (if list_all (\<lambda>c. c \<in> set white_space) (customInput a) then idle a
      else call_executeCommand sv a (customInput a))"

definition handleInventoryClick :: "services \<Rightarrow> AppState \<Rightarrow> string \<Rightarrow> app_run" where
  "handleInventoryClick sv a item =
     (case (selectedVerb a, selectedItem a) of
        (Some v, Some held) \<Rightarrow>
          if v = Use \<and> held \<noteq> []
          then call_executeCommand sv a (''Use '' @ held @ '' on '' @ item)
          else idle (a\<lparr>selectedItem := Some item\<rparr>)
      | _ \<Rightarrow> idle (a\<lparr>selectedItem := Some item\<rparr>))"

text \<open>
  The events that reach the orchestrator, and the handler each of them is bound to on
  the screen that is rendered; an event of the screen that is not rendered has no
  handler. The theme form calls \<^verbatim>\<open>handleStartGame\<close> when its input is not empty.
\<close>

datatype ui_event =
    ThemeSubmit string
  | SceneClick "string option"
  | CustomCommandSubmit
  | InventoryClick string

definition dispatch :: "services \<Rightarrow> AppState \<Rightarrow> ui_event \<Rightarrow> app_run" where
  "dispatch sv a e =
     (if \<not> isPlaying (gameState a) then
        (case e of
           ThemeSubmit t \<Rightarrow>
             if t \<noteq> [] then
               (let r = handleStartGame sv (gameState a) t
                in \<lparr>app = a\<lparr>gameState := final r\<rparr>, sent = calls r, failed = raised r\<rparr>)
             else idle a
         | _ \<Rightarrow> idle a)
      else
        (case e of
           ThemeSubmit t \<Rightarrow> idle a
         | SceneClick targetName \<Rightarrow> handleSceneClick sv a targetName
         | CustomCommandSubmit \<Rightarrow> handleCustomCommandSubmit sv a
         | InventoryClick item \<Rightarrow> handleInventoryClick sv a item))"

text \<open>The events that issue a command, that is, all but the theme form.\<close>

fun command_event :: "ui_event \<Rightarrow> bool" where
  "command_event (ThemeSubmit t) = False"
| "command_event e = True"

subsection \<open>The specification's wording, for comparison\<close>

text \<open>
  The specification on hotspot entries: an entry is kept when it has a name and its box
  is a 4-element numeric array.
\<close>

fun is_number :: "json \<Rightarrow> bool" where
  "is_number (JNum x) = True"
| "is_number v = False"

definition spec_well_formed :: "json \<Rightarrow> bool" where
  "spec_well_formed h =
     (get_prop h ''name'' \<noteq> None \<and>
      (case get_prop h ''box'' of
         Some (JArr b) \<Rightarrow> length b = 4 \<and> list_all is_number b
       | _ \<Rightarrow> False))"

subsection \<open>Stubs and states for the examples\<close>

definition key_entry :: json where
  "key_entry = JObj [(''name'', JStr ''key''), (''box'', JArr [JNum 10, JNum 10, JNum 20, JNum 20])]"

definition lamp_entry :: json where
  "lamp_entry = JObj [(''name'', JStr ''lamp'')]"

definition door_entry :: json where
  "door_entry = JObj [(''name'', JStr ''door''),
                      (''box'', JArr [JStr ''10'', JStr ''10'', JStr ''20'', JStr ''20''])]"

text \<open>A stub of the services: every request fails, except those a test overrides.\<close>

definition failing_services :: services where
  "failing_services =
     \<lparr>adventureStart = (\<lambda>t. CallFailed),
      gameAction = (\<lambda>a h i c. CallFailed),
      sceneImage = (\<lambda>d. ImgCallFailed),
      sceneHotspots = (\<lambda>i n. HsCallFailed)\<rparr>"

definition hotspot_services :: "json list \<Rightarrow> services" where
  "hotspot_services raw =
     failing_services\<lparr>sceneHotspots := (\<lambda>i n. HsParsed (JObj [(''hotspots'', JArr raw)]))\<rparr>"

text \<open>The lighthouse scenario of the specification.\<close>

definition lantern_entry :: json where
  "lantern_entry = JObj [(''name'', JStr ''lantern''), (''box'', JArr [JNum 40, JNum 40, JNum 60, JNum 60])]"

definition arrive_response :: AdventureResponse where
  "arrive_response =
     \<lparr>narrative = ''You arrive.'', scene_id = ''lighthouse_base'',
      visual_description = ''a lighthouse at dusk'', trigger_visual_update = True,
      interactables = [''lantern''], inventory_add = None, inventory_remove = None,
      is_game_over = None\<rparr>"

definition look_response :: AdventureResponse where
  "look_response =
     \<lparr>narrative = ''The lantern flickers.'', scene_id = ''lighthouse_base'',
      visual_description = ''a lighthouse at night'', trigger_visual_update = False,
      interactables = [''lantern''], inventory_add = None, inventory_remove = None,
      is_game_over = None\<rparr>"

definition climb_response :: AdventureResponse where
  "climb_response =
     \<lparr>narrative = ''You climb the stairs.'', scene_id = ''lighthouse_top'',
      visual_description = ''the lamp room'', trigger_visual_update = False,
      interactables = [''lens''], inventory_add = None, inventory_remove = None,
      is_game_over = None\<rparr>"

definition take_response :: AdventureResponse where
  "take_response =
     \<lparr>narrative = ''You take the lantern.'', scene_id = ''lighthouse_base'',
      visual_description = ''a lighthouse at dusk'', trigger_visual_update = False,
      interactables = [], inventory_add = Some ''lantern'', inventory_remove = None,
      is_game_over = None\<rparr>"

definition smash_response :: AdventureResponse where
  "smash_response =
     \<lparr>narrative = ''The window shatters.'', scene_id = ''lighthouse_base'',
      visual_description = ''a lighthouse with a broken window'', trigger_visual_update = True,
      interactables = [''lantern''], inventory_add = None, inventory_remove = None,
      is_game_over = None\<rparr>"

definition drop_response :: AdventureResponse where
  "drop_response =
     \<lparr>narrative = ''You put the lantern down.'', scene_id = ''lighthouse_base'',
      visual_description = ''a lighthouse at dusk'', trigger_visual_update = False,
      interactables = [''lantern''], inventory_add = None, inventory_remove = Some ''lantern'',
      is_game_over = None\<rparr>"

text \<open>A scene whose id is the name of a method of \<^verbatim>\<open>Object.prototype\<close>.\<close>

definition workshop_response :: AdventureResponse where
  "workshop_response =
     \<lparr>narrative = ''You enter the workshop.'', scene_id = ''constructor'',
      visual_description = ''a workshop'', trigger_visual_update = False,
      interactables = [''anvil''], inventory_add = Some ''hammer'', inventory_remove = None,
      is_game_over = None\<rparr>"

text \<open>A response that adds one item and removes another.\<close>

definition swap_response :: AdventureResponse where
  "swap_response =
     \<lparr>narrative = ''You trade the lantern for a key.'', scene_id = ''lighthouse_base'',
      visual_description = ''a lighthouse at dusk'', trigger_visual_update = False,
      interactables = [''lantern''], inventory_add = Some ''key'',
      inventory_remove = Some ''lantern'', is_game_over = None\<rparr>"

definition lighthouse_services :: services where
  "lighthouse_services =
     \<lparr>adventureStart = (\<lambda>t. ParsedResponse arrive_response),
      gameAction = (\<lambda>a h i c.
         if a = ''climb'' then ParsedResponse climb_response
         else if a = ''take lantern'' then ParsedResponse take_response
         else if a = ''smash window'' then ParsedResponse smash_response
         else if a = ''drop lantern'' then ParsedResponse drop_response
         else if a = ''enter workshop'' then ParsedResponse workshop_response
         else if a = ''trade lantern'' then ParsedResponse swap_response
         else ParsedResponse look_response),
      sceneImage = (\<lambda>d. ImgInlineData ''image/png'' ''AAAA''),
      sceneHotspots = (\<lambda>i n. HsParsed (JObj [(''hotspots'', JArr [lantern_entry])]))\<rparr>"

text \<open>The same narrative service, with an image service that is down.\<close>

definition dark_services :: services where
  "dark_services = lighthouse_services\<lparr>sceneImage := (\<lambda>d. ImgCallFailed)\<rparr>"

definition lighthouse_base :: GameState where
  "lighthouse_base =
     \<lparr>isPlaying = True, currentSceneId = Some ''lighthouse_base'', inventory = [],
      history = [\<lparr>entry_type = narrator, entry_text = ''You arrive.''\<rparr>],
      imageUrl = Some ''data:image/png;base64,AAAA'', hotspots = [lantern_entry],
      isLoading = False, loadingMessage = ''Analyzing Objects...'',
      gameOver = False, theme = ''haunted lighthouse'',
      sceneCache =
        \<lparr>own_props = [''lighthouse_base'' \<mapsto>
           \<lparr>id_sd = ''lighthouse_base'', visualDescription_sd = ''a lighthouse at dusk'',
            imageUrl_sd = ''data:image/png;base64,AAAA'', hotspots_sd = [lantern_entry],
            interactables_sd = [''lantern'']\<rparr>],
         prototype = None\<rparr>\<rparr>"

text \<open>A narrative service whose reply parses to \<^verbatim>\<open>null\<close>.\<close>

definition null_services :: services where
  "null_services = lighthouse_services\<lparr>gameAction := (\<lambda>a h i c. ParsedNull)\<rparr>"

section \<open>Narration audio\<close>

lemma int16_view_even:
  "even (length bs) \<Longrightarrow>
     \<exists>ws. int16_view bs = Inr ws \<and> length ws = length bs div 2 \<and>
          (\<forall>i<length ws. ws ! i = word_cat (bs ! (2 * i + 1)) (bs ! (2 * i)))"
proof (induction bs rule: int16_view.induct)
  case 1
  then show ?case by simp
next
  case (2 b)
  then show ?case by simp
next
  case (3 lo hi rest)
  then obtain ws where ws: "int16_view rest = Inr ws" "length ws = length rest div 2"
    "\<forall>i<length ws. ws ! i = word_cat (rest ! (2 * i + 1)) (rest ! (2 * i))"
    by auto
  have "\<forall>i<length (word_cat hi lo # ws).
          (word_cat hi lo # ws) ! i = word_cat ((lo # hi # rest) ! (2 * i + 1)) ((lo # hi # rest) ! (2 * i))"
  proof (intro allI impI)
    fix i assume "i < length (word_cat hi lo # ws)"
    then show "(word_cat hi lo # ws) ! i = word_cat ((lo # hi # rest) ! (2 * i + 1)) ((lo # hi # rest) ! (2 * i))"
      using ws(3) by (cases i) auto
  qed
  with ws show ?case by simp
qed

lemma sample_of_bounds: "- 1 \<le> sample_of w \<and> sample_of w < 1"
proof -
  define k where "k = sint w"
  have lo: "- 32768 \<le> k" using sint_ge [of w] by (simp add: k_def)
  have hi: "k < 32768" using sint_lt [of w] by (simp add: k_def)
  have "- 1 \<le> real_of_int k / 32768 \<and> real_of_int k / 32768 < 1"
    using lo hi by simp
  then show ?thesis unfolding sample_of_def k_def .
qed

lemma decodeAudioData_nonempty:
  assumes "data \<noteq> []"
  shows "\<exists>buf. decodeAudioData data = Inr buf \<and>
           numberOfChannels buf = 1 \<and> sampleRate buf = 24000 \<and>
           (let bytes = (if odd (length data) then data @ [0] else data)
            in length (channelData buf) = length bytes div 2 \<and>
               (\<forall>i<length (channelData buf).
                  channelData buf ! i =
                    real_of_int (sint (word_cat (bytes ! (2 * i + 1)) (bytes ! (2 * i)) :: 16 word)) / 32768)) \<and>
           (\<forall>x\<in>set (channelData buf). - 1 \<le> x \<and> x \<le> 1)"
proof -
  define bytes where "bytes = (if odd (length data) then data @ [0] else data)"
  have pad: "pad_even data = bytes"
    by (simp add: pad_even_def bytes_def odd_iff_mod_2_eq_one)
  have ev: "even (length bytes)" by (simp add: bytes_def)
  from int16_view_even [OF ev] obtain ws where ws: "int16_view bytes = Inr ws"
    "length ws = length bytes div 2"
    "\<forall>i<length ws. ws ! i = word_cat (bytes ! (2 * i + 1)) (bytes ! (2 * i))"
    by blast
  have ne: "length ws \<noteq> 0"
  proof -
    from assms have "length bytes \<noteq> 0" by (simp add: bytes_def)
    moreover from ev obtain k where "length bytes = 2 * k" by (auto elim: evenE)
    ultimately show ?thesis using ws(2) by simp
  qed
  let ?buf = "\<lparr>numberOfChannels = 1, sampleRate = 24000, channelData = map sample_of ws\<rparr>"
  have dec: "decodeAudioData data = Inr ?buf"
    using ws(1) ne by (simp add: decodeAudioData_def pad Let_def)
  have bounds: "\<forall>x\<in>set (map sample_of ws). - 1 \<le> x \<and> x \<le> 1"
    using sample_of_bounds by (auto simp: less_imp_le)
  have vals: "\<forall>i<length (map sample_of ws).
       map sample_of ws ! i = real_of_int (sint (word_cat (bytes ! (2 * i + 1)) (bytes ! (2 * i)) :: 16 word)) / 32768"
    using ws(3) by (simp add: sample_of_def)
  show ?thesis
    unfolding Let_def bytes_def [symmetric]
    using dec ws(2) vals bounds by simp
qed

text \<open>
  Claim C9. \<^verbatim>\<open>decodeAudioData\<close> appends one zero byte to a byte stream of odd length,
  reads the bytes in pairs as signed 16-bit samples, low byte first, and stores each
  sample divided by 32768. For every byte stream: an empty one is refused by
  \<^verbatim>\<open>createBuffer\<close> and produces no sample; any other gives a mono buffer at 24000 Hz with
  half as many samples as (padded) bytes, each sample is that quotient, and every sample
  lies between \<open>-1\<close> and \<open>1\<close>.
\<close>

theorem decodeAudioData_samples:
  "(case decodeAudioData data of
      Inl e \<Rightarrow> data = [] \<and> e = NotSupportedError
    | Inr buf \<Rightarrow>
        data \<noteq> [] \<and> numberOfChannels buf = 1 \<and> sampleRate buf = 24000 \<and>
        (let bytes = (if odd (length data) then data @ [0] else data)
         in length (channelData buf) = length bytes div 2 \<and>
            (\<forall>i<length (channelData buf).
               channelData buf ! i =
                 real_of_int (sint (word_cat (bytes ! (2 * i + 1)) (bytes ! (2 * i)) :: 16 word)) / 32768)) \<and>
        (\<forall>x\<in>set (channelData buf). - 1 \<le> x \<and> x \<le> 1))"
proof (cases "data = []")
  case True
  then show ?thesis by (simp add: decodeAudioData_def pad_even_def)
next
  case False
  from decodeAudioData_nonempty [OF False] obtain buf where
    "decodeAudioData data = Inr buf" and
    "numberOfChannels buf = 1 \<and> sampleRate buf = 24000 \<and>
        (let bytes = (if odd (length data) then data @ [0] else data)
         in length (channelData buf) = length bytes div 2 \<and>
            (\<forall>i<length (channelData buf).
               channelData buf ! i =
                 real_of_int (sint (word_cat (bytes ! (2 * i + 1)) (bytes ! (2 * i)) :: 16 word)) / 32768)) \<and>
        (\<forall>x\<in>set (channelData buf). - 1 \<le> x \<and> x \<le> 1)"
    by blast
  with False show ?thesis by simp
qed

theorem decodeAudioData_samples_witness:
  "decodeAudioData [0x00, 0x80, 0xFF] =
     Inr \<lparr>numberOfChannels = 1, sampleRate = 24000, channelData = [- 1, 255 / 32768]\<rparr> \<and>
   - 1 \<le> (- 1 :: real) \<and> (255 / 32768 :: real) \<le> 1 \<and>
   decodeAudioData [] = Inl NotSupportedError"
proof -
  have d: "decodeAudioData [0x00, 0x80, 0xFF] =
     Inr \<lparr>numberOfChannels = 1, sampleRate = 24000, channelData = [- 1, 255 / 32768]\<rparr>"
    by (simp add: decodeAudioData_def pad_even_def sample_of_def word_cat_eq)
  from decodeAudioData_samples [of "[0x00, 0x80, 0xFF]"]
  have "- 1 \<le> (- 1 :: real) \<and> (255 / 32768 :: real) \<le> 1"
    unfolding d by simp
  moreover from decodeAudioData_samples [of "[]"]
  have "decodeAudioData [] = Inl NotSupportedError"
    by (cases "decodeAudioData []") simp_all
  ultimately show ?thesis using d by simp
qed


section \<open>Hotspot detection\<close>

lemma hotspot_kept_iff:
  "hotspot_kept h \<longleftrightarrow>
     (\<exists>fields n b. h = JObj fields \<and> map_of fields ''name'' = Some n \<and> truthy n \<and>
                   map_of fields ''box'' = Some (JArr b) \<and> length b = 4)"
  by (cases h) (auto simp: hotspot_kept_def split: option.splits json.splits)

lemma hotspot_kept_eq:
  "(\<lambda>h. \<exists>fields n b. h = JObj fields \<and> map_of fields ''name'' = Some n \<and> truthy n \<and>
                   map_of fields ''box'' = Some (JArr b) \<and> length b = 4) = hotspot_kept"
  by (rule ext) (simp only: hotspot_kept_iff)

lemma filter_hotspots_kept:
  assumes "h \<in> set (filter_hotspots result)"
  shows "hotspot_kept h"
proof (cases result)
  case (JObj kvs)
  show ?thesis
  proof (cases "map_of kvs ''hotspots''")
    case None
    with JObj assms show ?thesis by (simp add: filter_hotspots_def)
  next
    case (Some raw)
    with JObj assms show ?thesis
      by (cases raw) (simp_all add: filter_hotspots_def split: if_splits)
  qed
qed (use assms in \<open>simp_all add: filter_hotspots_def\<close>)

lemma detect_subset: "h \<in> set (fst (detectSceneHotspots sv img items)) \<Longrightarrow> hotspot_kept h"
  by (auto simp: detectSceneHotspots_def dest: filter_hotspots_kept split: if_splits hotspot_reply.splits)

lemma filter_hotspots_array:
  "get_prop result ''hotspots'' = Some (JArr raw) \<Longrightarrow> filter_hotspots result = filter hotspot_kept raw"
  by (cases result) (simp_all add: filter_hotspots_def)

text \<open>
  Claim C4, as the code has it. \<^verbatim>\<open>detectSceneHotspots\<close> never raises, and every entry
  it returns is an object with a truthy name and a box that is an array of length 4;
  when the reply parses to an object whose \<^verbatim>\<open>hotspots\<close> is an array, the result is
  that array filtered by exactly this test. The elements of the box are not looked at.
\<close>

theorem detectSceneHotspots_filter:
  "(\<forall>h \<in> set (fst (detectSceneHotspots sv img items)).
      \<exists>fields n b. h = JObj fields \<and> map_of fields ''name'' = Some n \<and> truthy n \<and>
                    map_of fields ''box'' = Some (JArr b) \<and> length b = 4) \<and>
   (items \<noteq> [] \<and> sceneHotspots sv img items = HsParsed result \<and>
    get_prop result ''hotspots'' = Some (JArr raw) \<longrightarrow>
      fst (detectSceneHotspots sv img items) =
        filter (\<lambda>h. \<exists>fields n b. h = JObj fields \<and> map_of fields ''name'' = Some n \<and> truthy n \<and>
                       map_of fields ''box'' = Some (JArr b) \<and> length b = 4) raw)"
proof (intro conjI ballI impI)
  fix h assume "h \<in> set (fst (detectSceneHotspots sv img items))"
  then have "hotspot_kept h" by (rule detect_subset)
  then show "\<exists>fields n b. h = JObj fields \<and> map_of fields ''name'' = Some n \<and> truthy n \<and>
                    map_of fields ''box'' = Some (JArr b) \<and> length b = 4"
    by (simp only: hotspot_kept_iff)
next
  assume a: "items \<noteq> [] \<and> sceneHotspots sv img items = HsParsed result \<and>
    get_prop result ''hotspots'' = Some (JArr raw)"
  then have "fst (detectSceneHotspots sv img items) = filter hotspot_kept raw"
    by (simp add: detectSceneHotspots_def filter_hotspots_array)
  also have "hotspot_kept = (\<lambda>h. \<exists>fields n b. h = JObj fields \<and> map_of fields ''name'' = Some n \<and> truthy n \<and>
                       map_of fields ''box'' = Some (JArr b) \<and> length b = 4)"
    by (rule ext) (rule hotspot_kept_iff)
  finally show "fst (detectSceneHotspots sv img items) =
        filter (\<lambda>h. \<exists>fields n b. h = JObj fields \<and> map_of fields ''name'' = Some n \<and> truthy n \<and>
                       map_of fields ''box'' = Some (JArr b) \<and> length b = 4) raw" .
qed

theorem detectSceneHotspots_filter_witness:
  "fst (detectSceneHotspots (hotspot_services [key_entry, lamp_entry]) ''data:image/png;base64,AAAA'' [''key'', ''lamp''])
     = [key_entry]"
proof -
  have kept: "hotspot_kept key_entry" by (simp add: hotspot_kept_def key_entry_def)
  have dropped: "\<not> hotspot_kept lamp_entry" by (simp add: hotspot_kept_def lamp_entry_def)
  have "filter (\<lambda>h. \<exists>fields n b. h = JObj fields \<and> map_of fields ''name'' = Some n \<and> truthy n \<and>
                       map_of fields ''box'' = Some (JArr b) \<and> length b = 4) [key_entry, lamp_entry] = [key_entry]"
    unfolding hotspot_kept_eq using kept dropped by simp
  then show ?thesis
    using detectSceneHotspots_filter [of "hotspot_services [key_entry, lamp_entry]" "''data:image/png;base64,AAAA''"
       "[''key'', ''lamp'']" "JObj [(''hotspots'', JArr [key_entry, lamp_entry])]" "[key_entry, lamp_entry]"]
    by (simp add: hotspot_services_def failing_services_def)
qed

text \<open>
  The claim as stated fails: an entry whose box holds four strings is not a 4-element
  numeric array, and it is kept.
\<close>

theorem detectSceneHotspots_numeric_counterexample:
  "\<not> spec_well_formed door_entry \<and>
   fst (detectSceneHotspots (hotspot_services [door_entry]) ''data:image/png;base64,AAAA'' [''door'']) = [door_entry]"
  by (simp add: spec_well_formed_def door_entry_def detectSceneHotspots_def hotspot_services_def
        failing_services_def filter_hotspots_def hotspot_kept_def)

section \<open>The cache object\<close>

lemma cache_get_own: "own_props c k = Some a \<Longrightarrow> cache_get c k = Cached a"
  by (simp add: cache_get_def)


lemma cache_get_unknown: "cache_get c ''unknown'' \<noteq> Inherited t"
  by (simp add: cache_get_def object_prototype_names_def split: option.splits)



section \<open>The visual resolution policy\<close>

lemma generateSceneImage_log: "snd (generateSceneImage sv d) = [SceneImage d]"
  by (simp add: generateSceneImage_def)

lemma generateSceneImage_nonempty: "fst (generateSceneImage sv d) = Some img \<Longrightarrow> img \<noteq> []"
  by (auto simp: generateSceneImage_def split: image_reply.splits)

lemma detectSceneHotspots_log:
  "snd (detectSceneHotspots sv img items) = (if items = [] then [] else [SceneHotspots img items])"
  by (simp add: detectSceneHotspots_def)

text \<open>The four ways through \<^verbatim>\<open>handleVisualUpdate\<close>.\<close>

lemma handleVisualUpdate_hit:
  assumes "\<not> triggerUpdate" "cache_get (sceneCache g) sceneId = Cached cached"
  shows "handleVisualUpdate sv g p sceneId visualDesc triggerUpdate items =
           ((Some (imageUrl_sd cached), Some (hotspots_sd cached)), p,
            [VisualUpdate sceneId visualDesc triggerUpdate items])"
  using assms by (simp add: handleVisualUpdate_def)


lemma handleVisualUpdate_failed:
  assumes "triggerUpdate \<or> \<not> truthy_looked_up (cache_get (sceneCache g) sceneId)"
    and "fst (generateSceneImage sv visualDesc) = None"
  shows "handleVisualUpdate sv g p sceneId visualDesc triggerUpdate items =
           ((None, Some []), p\<lparr>loadingMessage := ''Rendering Scene...''\<rparr>,
            [VisualUpdate sceneId visualDesc triggerUpdate items, SceneImage visualDesc])"
proof -
  have c: "\<not> (\<not> triggerUpdate \<and> truthy_looked_up (cache_get (sceneCache g) sceneId))"
    using assms(1) by auto
  obtain im ev1 where g1: "generateSceneImage sv visualDesc = (im, ev1)"
    by (cases "generateSceneImage sv visualDesc")
  with generateSceneImage_log [of sv visualDesc] assms(2)
  have "ev1 = [SceneImage visualDesc]" "im = None" by simp_all
  with g1 show ?thesis
    unfolding handleVisualUpdate_def Let_def if_not_P [OF c] by simp
qed

lemma handleVisualUpdate_generated:
  assumes "triggerUpdate \<or> \<not> truthy_looked_up (cache_get (sceneCache g) sceneId)"
    and "fst (generateSceneImage sv visualDesc) = Some img"
  shows "handleVisualUpdate sv g p sceneId visualDesc triggerUpdate items =
           ((Some img, Some (fst (detectSceneHotspots sv img items))),
            p\<lparr>loadingMessage := (if items \<noteq> [] then ''Analyzing Objects...''
                                   else ''Rendering Scene...'')\<rparr>,
            VisualUpdate sceneId visualDesc triggerUpdate items # SceneImage visualDesc #
              snd (detectSceneHotspots sv img items))"
proof -
  have c: "\<not> (\<not> triggerUpdate \<and> truthy_looked_up (cache_get (sceneCache g) sceneId))"
    using assms(1) by auto
  obtain im ev1 where g1: "generateSceneImage sv visualDesc = (im, ev1)"
    by (cases "generateSceneImage sv visualDesc")
  with generateSceneImage_log [of sv visualDesc] assms(2)
  have e: "ev1 = [SceneImage visualDesc]" "im = Some img" by simp_all
  have ne: "img \<noteq> []" using assms(2) by (rule generateSceneImage_nonempty)
  show ?thesis
  proof (cases "items = []")
    case True
    with g1 e ne show ?thesis
      unfolding handleVisualUpdate_def Let_def if_not_P [OF c]
      by (simp add: detectSceneHotspots_def)
  next
    case False
    with g1 e ne show ?thesis
      unfolding handleVisualUpdate_def Let_def if_not_P [OF c]
      by (simp split: prod.splits)
  qed
qed

text \<open>
  With the trigger forced the policy does not read the cache, and its hotspots are
  defined.
\<close>

lemma handleVisualUpdate_forced:
  "\<exists>hs. snd (fst (handleVisualUpdate sv g p sceneId visualDesc True items)) = Some hs"
proof (cases "fst (generateSceneImage sv visualDesc)")
  case None
  have "True \<or> \<not> truthy_looked_up (cache_get (sceneCache g) sceneId)" by simp
  from handleVisualUpdate_failed [OF this None] show ?thesis by simp
next
  case (Some img)
  have "True \<or> \<not> truthy_looked_up (cache_get (sceneCache g) sceneId)" by simp
  from handleVisualUpdate_generated [OF this Some] show ?thesis by simp
qed


text \<open>The log of the policy starts with its own entry.\<close>

lemma handleVisualUpdate_entered:
  "\<exists>rest. snd (snd (handleVisualUpdate sv g p sceneId visualDesc triggerUpdate items)) =
            VisualUpdate sceneId visualDesc triggerUpdate items # rest \<and>
          (\<forall>a b c d. VisualUpdate a b c d \<notin> set rest)"
proof (cases "triggerUpdate \<or> \<not> truthy_looked_up (cache_get (sceneCache g) sceneId)")
  case True
  show ?thesis
  proof (cases "fst (generateSceneImage sv visualDesc)")
    case None
    show ?thesis by (simp add: handleVisualUpdate_failed [OF True None])
  next
    case (Some img)
    show ?thesis
      by (simp add: handleVisualUpdate_generated [OF True Some] detectSceneHotspots_log)
  qed
next
  case False
  then show ?thesis
    by (cases "cache_get (sceneCache g) sceneId") (simp_all add: handleVisualUpdate_def)
qed




section \<open>One turn\<close>

text \<open>
  \<^verbatim>\<open>executeCommand\<close> in its five cases: the guard, a \<^verbatim>\<open>null\<close> response, a turn that
  needs no visual update, and a turn that goes through \<^verbatim>\<open>handleVisualUpdate\<close> and
  gets hotspots or gets none.
\<close>

lemma processGameAction_log:
  "snd (processGameAction sv a h i c) = [NarrativeAction a h i c]"
  by (simp add: processGameAction_def)

lemma executeCommand_guard:
  "isLoading g \<or> gameOver g \<Longrightarrow> executeCommand sv g cmd = \<lparr>final = g, calls = [], raised = None\<rparr>"
  by (simp add: executeCommand_def)

lemma executeCommand_null:
  assumes "\<not> isLoading g" "\<not> gameOver g" "turn_response sv g cmd = None"
  shows "executeCommand sv g cmd =
    \<lparr>final = g\<lparr>history := history g @ [\<lparr>entry_type = command, entry_text = ''> '' @ cmd\<rparr>],
                 isLoading := True, loadingMessage := ''Thinking...''\<rparr>,
     calls = [NarrativeAction cmd (join [CHR 0x0A] (map entry_text (slice_last 5 (history g))))
                (inventory g) (currentSceneId g)],
     raised = Some TypeError\<rparr>"
proof -
  let ?h = "join [CHR 0x0A] (map entry_text (slice_last 5 (history g)))"
  obtain resp ev where pg: "processGameAction sv cmd ?h (inventory g) (currentSceneId g) = (resp, ev)"
    by (cases "processGameAction sv cmd ?h (inventory g) (currentSceneId g)")
  with assms(3) processGameAction_log [of sv cmd ?h "inventory g" "currentSceneId g"]
  have "resp = None" "ev = [NarrativeAction cmd ?h (inventory g) (currentSceneId g)]"
    by (simp_all add: turn_response_def)
  with pg assms(1,2) show ?thesis
    by (simp add: executeCommand_def Let_def)
qed

lemma executeCommand_same:
  assumes "\<not> isLoading g" "\<not> gameOver g" "turn_response sv g cmd = Some r"
    and "Some (scene_id r) = currentSceneId g" "\<not> trigger_visual_update r"
  shows "executeCommand sv g cmd =
    \<lparr>final = g\<lparr>
        history := history g @ [\<lparr>entry_type = command, entry_text = ''> '' @ cmd\<rparr>,
                                \<lparr>entry_type = narrator, entry_text = narrative r\<rparr>],
        isLoading := False, loadingMessage := ''Thinking...'',
        inventory := update_inventory (inventory g) (inventory_add r) (inventory_remove r),
        currentSceneId := Some (scene_id r),
        gameOver := (case is_game_over r of None \<Rightarrow> False | Some b \<Rightarrow> b),
        sceneCache :=
          (if truthy_str (imageUrl g) then
             cache_set (cache_spread (sceneCache g)) (scene_id r)
                \<lparr>id_sd = scene_id r, visualDescription_sd = visual_description r,
                 imageUrl_sd = (case imageUrl g of None \<Rightarrow> [] | Some u \<Rightarrow> u),
                 hotspots_sd = hotspots g,
                 interactables_sd = interactables r\<rparr>
           else cache_spread (sceneCache g))\<rparr>,
     calls = [NarrativeAction cmd (join [CHR 0x0A] (map entry_text (slice_last 5 (history g))))
                (inventory g) (currentSceneId g), PlayAudio (narrative r)],
     raised = None\<rparr>"
proof -
  let ?h = "join [CHR 0x0A] (map entry_text (slice_last 5 (history g)))"
  obtain resp ev where pg: "processGameAction sv cmd ?h (inventory g) (currentSceneId g) = (resp, ev)"
    by (cases "processGameAction sv cmd ?h (inventory g) (currentSceneId g)")
  with assms(3) processGameAction_log [of sv cmd ?h "inventory g" "currentSceneId g"]
  have "resp = Some r" "ev = [NarrativeAction cmd ?h (inventory g) (currentSceneId g)]"
    by (simp_all add: turn_response_def)
  with pg assms(1,2,4,5) show ?thesis
    by (cases "imageUrl g") (simp_all add: executeCommand_def Let_def)
qed

lemma executeCommand_visual:
  assumes "\<not> isLoading g" "\<not> gameOver g" "turn_response sv g cmd = Some r"
    and "Some (scene_id r) \<noteq> currentSceneId g \<or> trigger_visual_update r"
    and "handleVisualUpdate sv g
           (g\<lparr>history := history g @ [\<lparr>entry_type = command, entry_text = ''> '' @ cmd\<rparr>],
              isLoading := True, loadingMessage := ''Thinking...''\<rparr>)
           (scene_id r) (visual_description r) (trigger_visual_update r) (interactables r)
         = ((im, Some hs), p', ev)"
  shows "executeCommand sv g cmd =
    \<lparr>final = p'\<lparr>
        isLoading := False,
        history := history g @ [\<lparr>entry_type = command, entry_text = ''> '' @ cmd\<rparr>,
                                \<lparr>entry_type = narrator, entry_text = narrative r\<rparr>],
        inventory := update_inventory (inventory g) (inventory_add r) (inventory_remove r),
        currentSceneId := Some (scene_id r),
        imageUrl := (if truthy_str im then im else imageUrl g),
        hotspots := hs,
        gameOver := (case is_game_over r of None \<Rightarrow> False | Some b \<Rightarrow> b),
        sceneCache :=
          (if truthy_str (if truthy_str im then im else imageUrl g) then
             cache_set (cache_spread (sceneCache p')) (scene_id r)
                \<lparr>id_sd = scene_id r, visualDescription_sd = visual_description r,
                 imageUrl_sd = (case (if truthy_str im then im else imageUrl g) of
                                  None \<Rightarrow> [] | Some u \<Rightarrow> u),
                 hotspots_sd = hs,
                 interactables_sd = interactables r\<rparr>
           else cache_spread (sceneCache p'))\<rparr>,
     calls = NarrativeAction cmd (join [CHR 0x0A] (map entry_text (slice_last 5 (history g))))
                (inventory g) (currentSceneId g) # ev @ [PlayAudio (narrative r)],
     raised = None\<rparr>"
proof -
  let ?h = "join [CHR 0x0A] (map entry_text (slice_last 5 (history g)))"
  obtain resp ev0 where pg: "processGameAction sv cmd ?h (inventory g) (currentSceneId g) = (resp, ev0)"
    by (cases "processGameAction sv cmd ?h (inventory g) (currentSceneId g)")
  with assms(3) processGameAction_log [of sv cmd ?h "inventory g" "currentSceneId g"]
  have "resp = Some r" "ev0 = [NarrativeAction cmd ?h (inventory g) (currentSceneId g)]"
    by (simp_all add: turn_response_def)
  with pg assms(1,2,4,5) show ?thesis
    by (cases "if truthy_str im then im else imageUrl g")
       (auto simp add: executeCommand_def Let_def)
qed

lemma executeCommand_rejected:
  assumes "\<not> isLoading g" "\<not> gameOver g" "turn_response sv g cmd = Some r"
    and "Some (scene_id r) \<noteq> currentSceneId g \<or> trigger_visual_update r"
    and "handleVisualUpdate sv g
           (g\<lparr>history := history g @ [\<lparr>entry_type = command, entry_text = ''> '' @ cmd\<rparr>],
              isLoading := True, loadingMessage := ''Thinking...''\<rparr>)
           (scene_id r) (visual_description r) (trigger_visual_update r) (interactables r)
         = ((im, None), p', ev)"
  shows "executeCommand sv g cmd =
    \<lparr>final = p',
     calls = NarrativeAction cmd (join [CHR 0x0A] (map entry_text (slice_last 5 (history g))))
                (inventory g) (currentSceneId g) # ev,
     raised = Some TypeError\<rparr>"
proof -
  let ?h = "join [CHR 0x0A] (map entry_text (slice_last 5 (history g)))"
  obtain resp ev0 where pg: "processGameAction sv cmd ?h (inventory g) (currentSceneId g) = (resp, ev0)"
    by (cases "processGameAction sv cmd ?h (inventory g) (currentSceneId g)")
  with assms(3) processGameAction_log [of sv cmd ?h "inventory g" "currentSceneId g"]
  have "resp = Some r" "ev0 = [NarrativeAction cmd ?h (inventory g) (currentSceneId g)]"
    by (simp_all add: turn_response_def)
  with pg assms(1,2,4,5) show ?thesis
    by (auto simp add: executeCommand_def Let_def)
qed

lemma lighthouse_guard: "\<not> isLoading lighthouse_base" "\<not> gameOver lighthouse_base"
  by (simp_all add: lighthouse_base_def)

lemma lighthouse_response:
  "turn_response lighthouse_services lighthouse_base cmd =
     Some (if cmd = ''climb'' then climb_response else if cmd = ''take lantern'' then take_response
           else if cmd = ''smash window'' then smash_response
           else if cmd = ''drop lantern'' then drop_response
           else if cmd = ''enter workshop'' then workshop_response
           else if cmd = ''trade lantern'' then swap_response else look_response)"
  by (simp add: turn_response_def processGameAction_def lighthouse_services_def)

text \<open>
  Claim C6. In a turn that passes the guard and has a response, \<^verbatim>\<open>handleVisualUpdate\<close>
  is entered if and only if the scene id of the response differs from the current scene
  id or the response sets \<^verbatim>\<open>trigger_visual_update\<close>; a change of scene id without the
  trigger enters it. When it is entered, it is called once, on the response's scene id,
  description, trigger and interactables, and the turn is what its result makes it: the
  log is the narrative request, then the log of the policy, then the narration; the
  displayed image is the policy's image, or the previous one if that is empty; the
  displayed hotspots are the policy's hotspots; and if these are \<^verbatim>\<open>undefined\<close> the turn
  rejects in the state the policy left. When it is not entered, the log is the narrative
  request and the narration, and \<^verbatim>\<open>imageUrl\<close> and \<^verbatim>\<open>hotspots\<close> are as they were.
\<close>

theorem executeCommand_needsUpdate:
  assumes "\<not> isLoading g" "\<not> gameOver g" "turn_response sv g cmd = Some r"
  shows
    "((\<exists>a b c d. VisualUpdate a b c d \<in> set (calls (executeCommand sv g cmd)))
        \<longleftrightarrow> (Some (scene_id r) \<noteq> currentSceneId g \<or> trigger_visual_update r)) \<and>
     (Some (scene_id r) \<noteq> currentSceneId g \<or> trigger_visual_update r \<longrightarrow>
        (let v = handleVisualUpdate sv g
                   (g\<lparr>history := history g @ [\<lparr>entry_type = command, entry_text = ''> '' @ cmd\<rparr>],
                      isLoading := True, loadingMessage := ''Thinking...''\<rparr>)
                   (scene_id r) (visual_description r) (trigger_visual_update r) (interactables r)
         in filter (\<lambda>e. \<exists>a b c d. e = VisualUpdate a b c d) (calls (executeCommand sv g cmd)) =
              [VisualUpdate (scene_id r) (visual_description r) (trigger_visual_update r)
                 (interactables r)] \<and>
            (case snd (fst v) of
               None \<Rightarrow>
                 executeCommand sv g cmd =
                   \<lparr>final = fst (snd v),
                    calls = NarrativeAction cmd
                              (join [CHR 0x0A] (map entry_text (slice_last 5 (history g))))
                              (inventory g) (currentSceneId g) # snd (snd v),
                    raised = Some TypeError\<rparr>
             | Some hs \<Rightarrow>
                 calls (executeCommand sv g cmd) =
                   NarrativeAction cmd
                     (join [CHR 0x0A] (map entry_text (slice_last 5 (history g))))
                     (inventory g) (currentSceneId g) # snd (snd v) @ [PlayAudio (narrative r)] \<and>
                 imageUrl (final (executeCommand sv g cmd)) =
                   (if truthy_str (fst (fst v)) then fst (fst v) else imageUrl g) \<and>
                 hotspots (final (executeCommand sv g cmd)) = hs \<and>
                 raised (executeCommand sv g cmd) = None))) \<and>
     (Some (scene_id r) = currentSceneId g \<and> \<not> trigger_visual_update r \<longrightarrow>
        calls (executeCommand sv g cmd) =
          [NarrativeAction cmd (join [CHR 0x0A] (map entry_text (slice_last 5 (history g))))
             (inventory g) (currentSceneId g),
           PlayAudio (narrative r)] \<and>
        imageUrl (final (executeCommand sv g cmd)) = imageUrl g \<and>
        hotspots (final (executeCommand sv g cmd)) = hotspots g \<and>
        raised (executeCommand sv g cmd) = None)"
proof (cases "Some (scene_id r) \<noteq> currentSceneId g \<or> trigger_visual_update r")
  case True
  let ?p0 = "g\<lparr>history := history g @ [\<lparr>entry_type = command, entry_text = ''> '' @ cmd\<rparr>],
              isLoading := True, loadingMessage := ''Thinking...''\<rparr>"
  let ?v = "handleVisualUpdate sv g ?p0 (scene_id r) (visual_description r)
              (trigger_visual_update r) (interactables r)"
  let ?n = "NarrativeAction cmd (join [CHR 0x0A] (map entry_text (slice_last 5 (history g))))
              (inventory g) (currentSceneId g)"
  let ?e = "VisualUpdate (scene_id r) (visual_description r) (trigger_visual_update r)
              (interactables r)"
  obtain im hso p' ev where v: "?v = ((im, hso), p', ev)"
    by (cases ?v) auto
  from handleVisualUpdate_entered [of sv g ?p0 "scene_id r" "visual_description r"
      "trigger_visual_update r" "interactables r"] v
  obtain rest where ev: "ev = ?e # rest" and rest: "\<forall>a b c d. VisualUpdate a b c d \<notin> set rest"
    by auto
  have fr: "filter (\<lambda>e. \<exists>a b c d. e = VisualUpdate a b c d) rest = []"
    using rest by (auto simp: filter_empty_conv)
  show ?thesis
  proof (cases hso)
    case None
    note e = executeCommand_rejected [OF assms True v [unfolded None]]
    have c: "calls (executeCommand sv g cmd) = ?n # ?e # rest" by (simp add: e ev)
    have 1: "(\<exists>a b c d. VisualUpdate a b c d \<in> set (calls (executeCommand sv g cmd)))
        \<longleftrightarrow> (Some (scene_id r) \<noteq> currentSceneId g \<or> trigger_visual_update r)"
      using True unfolding c by auto
    have 2: "filter (\<lambda>e. \<exists>a b c d. e = VisualUpdate a b c d) (calls (executeCommand sv g cmd)) = [?e]"
      unfolding c using fr by simp
    have 3: "executeCommand sv g cmd = \<lparr>final = fst (snd ?v), calls = ?n # snd (snd ?v),
                raised = Some TypeError\<rparr>"
      unfolding v fst_conv snd_conv by (rule e)
    have 4: "snd (fst ?v) = None" unfolding v fst_conv snd_conv by (rule None)
    show ?thesis
      apply (intro conjI impI)
      subgoal by (rule 1)
      subgoal unfolding Let_def 4 option.case by (intro conjI 2 3)
      subgoal using True by blast
      subgoal using True by blast
      subgoal using True by blast
      subgoal using True by blast
      done
  next
    case (Some hs)
    note e = executeCommand_visual [OF assms True v [unfolded Some]]
    have c: "calls (executeCommand sv g cmd) = ?n # ?e # rest @ [PlayAudio (narrative r)]"
      by (simp add: e ev)
    have 1: "(\<exists>a b c d. VisualUpdate a b c d \<in> set (calls (executeCommand sv g cmd)))
        \<longleftrightarrow> (Some (scene_id r) \<noteq> currentSceneId g \<or> trigger_visual_update r)"
      using True unfolding c by auto
    have 2: "filter (\<lambda>e. \<exists>a b c d. e = VisualUpdate a b c d) (calls (executeCommand sv g cmd)) = [?e]"
      unfolding c using fr by simp
    have 3: "calls (executeCommand sv g cmd) = ?n # snd (snd ?v) @ [PlayAudio (narrative r)]"
      "imageUrl (final (executeCommand sv g cmd)) =
         (if truthy_str (fst (fst ?v)) then fst (fst ?v) else imageUrl g)"
      "hotspots (final (executeCommand sv g cmd)) = hs"
      "raised (executeCommand sv g cmd) = None"
      unfolding v fst_conv snd_conv by (simp_all add: e)
    have 4: "snd (fst ?v) = Some hs" unfolding v fst_conv snd_conv by (rule Some)
    show ?thesis
      apply (intro conjI impI)
      subgoal by (rule 1)
      subgoal unfolding Let_def 4 option.case by (intro conjI 2 3)
      subgoal using True by blast
      subgoal using True by blast
      subgoal using True by blast
      subgoal using True by blast
      done
  qed
next
  case False
  then have same: "Some (scene_id r) = currentSceneId g" "\<not> trigger_visual_update r" by auto
  note e = executeCommand_same [OF assms same]
  have 1: "\<not> (\<exists>a b c d. VisualUpdate a b c d \<in> set (calls (executeCommand sv g cmd)))"
    by (simp add: e)
  have 3: "calls (executeCommand sv g cmd) =
          [NarrativeAction cmd (join [CHR 0x0A] (map entry_text (slice_last 5 (history g))))
             (inventory g) (currentSceneId g),
           PlayAudio (narrative r)]"
    "imageUrl (final (executeCommand sv g cmd)) = imageUrl g"
    "hotspots (final (executeCommand sv g cmd)) = hotspots g"
    "raised (executeCommand sv g cmd) = None"
    by (simp_all add: e)
  show ?thesis
    apply (intro conjI impI)
    subgoal using 1 False by blast
    subgoal using False by blast
    subgoal by (rule 3)
    subgoal by (rule 3)
    subgoal by (rule 3)
    subgoal by (rule 3)
    done
qed

theorem executeCommand_needsUpdate_witness:
  "calls (executeCommand lighthouse_services lighthouse_base ''climb'') =
     [NarrativeAction ''climb'' ''You arrive.'' [] (Some ''lighthouse_base''),
      VisualUpdate ''lighthouse_top'' ''the lamp room'' False [''lens''],
      SceneImage ''the lamp room'',
      SceneHotspots ''data:image/png;base64,AAAA'' [''lens''],
      PlayAudio ''You climb the stairs.''] \<and>
   imageUrl (final (executeCommand lighthouse_services lighthouse_base ''climb'')) =
     Some ''data:image/png;base64,AAAA'' \<and>
   hotspots (final (executeCommand lighthouse_services lighthouse_base ''climb'')) =
     [lantern_entry] \<and>
   calls (executeCommand lighthouse_services lighthouse_base ''look'') =
     [NarrativeAction ''look'' ''You arrive.'' [] (Some ''lighthouse_base''),
      PlayAudio ''The lantern flickers.''] \<and>
   imageUrl (final (executeCommand lighthouse_services lighthouse_base ''look'')) =
     Some ''data:image/png;base64,AAAA'' \<and>
   hotspots (final (executeCommand lighthouse_services lighthouse_base ''look'')) = [lantern_entry]"
proof -
  let ?p0 = "lighthouse_base\<lparr>history := history lighthouse_base @
                [\<lparr>entry_type = command, entry_text = ''> '' @ ''climb''\<rparr>],
              isLoading := True, loadingMessage := ''Thinking...''\<rparr>"
  have c: "turn_response lighthouse_services lighthouse_base ''climb'' = Some climb_response"
    by (simp add: lighthouse_response)
  have l: "turn_response lighthouse_services lighthouse_base ''look'' = Some look_response"
    by (simp add: lighthouse_response)
  have h: "history lighthouse_base = [\<lparr>entry_type = narrator, entry_text = ''You arrive.''\<rparr>]"
    "inventory lighthouse_base = []" "currentSceneId lighthouse_base = Some ''lighthouse_base''"
    "imageUrl lighthouse_base = Some ''data:image/png;base64,AAAA''"
    "hotspots lighthouse_base = [lantern_entry]"
    by (simp_all add: lighthouse_base_def)
  have n: "Some (scene_id climb_response) \<noteq> currentSceneId lighthouse_base \<or>
           trigger_visual_update climb_response"
    by (simp add: climb_response_def h)
  have m: "trigger_visual_update climb_response \<or>
           \<not> truthy_looked_up (cache_get (sceneCache lighthouse_base) (scene_id climb_response))"
    by (simp add: climb_response_def lighthouse_base_def cache_get_def object_prototype_names_def)
  have i: "fst (generateSceneImage lighthouse_services (visual_description climb_response)) =
             Some ''data:image/png;base64,AAAA''"
    by (simp add: generateSceneImage_def lighthouse_services_def)
  have d: "detectSceneHotspots lighthouse_services ''data:image/png;base64,AAAA''
             (interactables climb_response) =
             ([lantern_entry], [SceneHotspots ''data:image/png;base64,AAAA'' [''lens'']])"
    by (simp add: detectSceneHotspots_def lighthouse_services_def climb_response_def
          filter_hotspots_def hotspot_kept_def lantern_entry_def)
  note hv = handleVisualUpdate_generated [OF m i, of ?p0 "interactables climb_response"]
  note up = executeCommand_needsUpdate [OF lighthouse_guard c, THEN conjunct2, THEN conjunct1,
      rule_format, OF n, unfolded Let_def hv d fst_conv snd_conv option.case, THEN conjunct2]
  note same = executeCommand_needsUpdate [OF lighthouse_guard l, THEN conjunct2, THEN conjunct2,
      rule_format]
  have s: "Some (scene_id look_response) = currentSceneId lighthouse_base \<and>
           \<not> trigger_visual_update look_response"
    by (simp add: look_response_def h)
  from up same [OF s] show ?thesis
    by (simp add: h slice_last_def climb_response_def look_response_def)
qed

section \<open>The guard of a turn\<close>

lemma call_executeCommand_guard:
  assumes "isLoading (gameState a) \<or> gameOver (gameState a)"
  shows "call_executeCommand sv a cmd = \<lparr>app = a, sent = [], failed = None\<rparr>"
  using assms by (auto simp: call_executeCommand_def executeCommand_guard)

lemma handleSceneClick_guard:
  "isLoading (gameState a) \<or> gameOver (gameState a) \<Longrightarrow>
     handleSceneClick sv a targetName = \<lparr>app = a, sent = [], failed = None\<rparr>"
  by (auto simp: handleSceneClick_def idle_def)

lemma handleCustomCommandSubmit_guard:
  "isLoading (gameState a) \<or> gameOver (gameState a) \<Longrightarrow>
     handleCustomCommandSubmit sv a = \<lparr>app = a, sent = [], failed = None\<rparr>"
  by (simp add: handleCustomCommandSubmit_def idle_def call_executeCommand_guard)

lemma handleInventoryClick_guard:
  assumes "isLoading (gameState a) \<or> gameOver (gameState a)"
  shows "gameState (app (handleInventoryClick sv a item)) = gameState a \<and>
         sent (handleInventoryClick sv a item) = [] \<and>
         failed (handleInventoryClick sv a item) = None"
  by (simp add: handleInventoryClick_def idle_def call_executeCommand_guard [OF assms]
        split: option.splits)

text \<open>
  Claim C2. \<^verbatim>\<open>executeCommand\<close> called while \<^verbatim>\<open>isLoading\<close> or \<^verbatim>\<open>gameOver\<close> is set does
  nothing, for any command: the state is unchanged, nothing is sent, nothing is raised.
  While the game is not playing, the component renders the start screen and no handler
  that calls \<^verbatim>\<open>executeCommand\<close> is bound. So in every state that is not playing, or over,
  or loading, every event that issues a command (a click on the scene, the manual
  command, with any text, a click on an inventory item) leaves the game state and the
  length of its history as they were and sends nothing.
\<close>

theorem executeCommand_debounce:
  "(isLoading g \<or> gameOver g \<longrightarrow>
      executeCommand sv g cmd = \<lparr>final = g, calls = [], raised = None\<rparr>) \<and>
   (\<not> isPlaying (gameState a) \<or> gameOver (gameState a) \<or> isLoading (gameState a) \<longrightarrow>
    command_event e \<longrightarrow>
      gameState (app (dispatch sv a e)) = gameState a \<and>
      length (history (gameState (app (dispatch sv a e)))) = length (history (gameState a)) \<and>
      sent (dispatch sv a e) = [] \<and>
      failed (dispatch sv a e) = None)"
proof (intro conjI impI)
  assume "isLoading g \<or> gameOver g"
  then show "executeCommand sv g cmd = \<lparr>final = g, calls = [], raised = None\<rparr>"
    by (rule executeCommand_guard)
next
  assume s: "\<not> isPlaying (gameState a) \<or> gameOver (gameState a) \<or> isLoading (gameState a)"
    and e: "command_event e"
  have "gameState (app (dispatch sv a e)) = gameState a \<and>
        sent (dispatch sv a e) = [] \<and> failed (dispatch sv a e) = None"
  proof (cases "isPlaying (gameState a)")
    case False
    with e show ?thesis by (cases e) (simp_all add: dispatch_def idle_def)
  next
    case True
    with s have l: "isLoading (gameState a) \<or> gameOver (gameState a)" by blast
    show ?thesis
    proof (cases e)
      case (ThemeSubmit t)
      with e show ?thesis by simp
    next
      case (SceneClick targetName)
      with True show ?thesis by (simp add: dispatch_def handleSceneClick_guard [OF l])
    next
      case CustomCommandSubmit
      with True show ?thesis by (simp add: dispatch_def handleCustomCommandSubmit_guard [OF l])
    next
      case (InventoryClick item)
      with True handleInventoryClick_guard [OF l, of sv item] show ?thesis
        by (simp add: dispatch_def)
    qed
  qed
  then show "gameState (app (dispatch sv a e)) = gameState a"
    "length (history (gameState (app (dispatch sv a e)))) = length (history (gameState a))"
    "sent (dispatch sv a e) = []" "failed (dispatch sv a e) = None"
    by simp_all
qed

theorem executeCommand_debounce_witness:
  "isLoading (lighthouse_base\<lparr>isLoading := True\<rparr>) \<and>
   executeCommand lighthouse_services (lighthouse_base\<lparr>isLoading := True\<rparr>) ''look'' =
     \<lparr>final = lighthouse_base\<lparr>isLoading := True\<rparr>, calls = [], raised = None\<rparr> \<and>
   \<not> isPlaying INITIAL_STATE \<and>
   gameState (app (dispatch lighthouse_services
     \<lparr>gameState = INITIAL_STATE, selectedVerb = None, selectedItem = None, customInput = ''look''\<rparr>
     CustomCommandSubmit)) = INITIAL_STATE \<and>
   sent (dispatch lighthouse_services
     \<lparr>gameState = INITIAL_STATE, selectedVerb = None, selectedItem = None, customInput = ''look''\<rparr>
     CustomCommandSubmit) = []"
proof -
  let ?a = "\<lparr>gameState = INITIAL_STATE, selectedVerb = None, selectedItem = None,
             customInput = ''look''\<rparr>"
  note t = executeCommand_debounce [of "lighthouse_base\<lparr>isLoading := True\<rparr>" lighthouse_services
      "''look''" ?a CustomCommandSubmit]
  have 1: "isLoading (lighthouse_base\<lparr>isLoading := True\<rparr>)" by simp
  have 2: "\<not> isPlaying INITIAL_STATE" by (simp add: INITIAL_STATE_def)
  have 3: "executeCommand lighthouse_services (lighthouse_base\<lparr>isLoading := True\<rparr>) ''look'' =
     \<lparr>final = lighthouse_base\<lparr>isLoading := True\<rparr>, calls = [], raised = None\<rparr>"
    by (rule t [THEN conjunct1, rule_format]) simp
  have 4: "gameState (app (dispatch lighthouse_services ?a CustomCommandSubmit)) = gameState ?a \<and>
      length (history (gameState (app (dispatch lighthouse_services ?a CustomCommandSubmit)))) =
        length (history (gameState ?a)) \<and>
      sent (dispatch lighthouse_services ?a CustomCommandSubmit) = [] \<and>
      failed (dispatch lighthouse_services ?a CustomCommandSubmit) = None"
    by (rule t [THEN conjunct2, rule_format]) (simp_all add: 2)
  from 1 2 3 4 show ?thesis by simp
qed

section \<open>The scene cache\<close>





section \<open>Failures of the image service\<close>

text \<open>
  Claim C3, as the code has it. In a turn that needs a visual update and is not served
  from the cache, a failed image request makes \<^verbatim>\<open>handleVisualUpdate\<close> return \<^verbatim>\<open>null\<close> and
  the empty list; the turn completes, the displayed image is the one from before, and
  the displayed hotspots are the empty list of the policy's result.
\<close>

theorem executeCommand_image_failure:
  assumes "\<not> isLoading g" "\<not> gameOver g" "turn_response sv g cmd = Some r"
    and "Some (scene_id r) \<noteq> currentSceneId g \<or> trigger_visual_update r"
    and "trigger_visual_update r \<or> \<not> truthy_looked_up (cache_get (sceneCache g) (scene_id r))"
    and "fst (generateSceneImage sv (visual_description r)) = None"
  shows "fst (handleVisualUpdate sv g p (scene_id r) (visual_description r)
                (trigger_visual_update r) (interactables r)) = (None, Some []) \<and>
         imageUrl (final (executeCommand sv g cmd)) = imageUrl g \<and>
         hotspots (final (executeCommand sv g cmd)) = [] \<and>
         raised (executeCommand sv g cmd) = None \<and>
         \<not> isLoading (final (executeCommand sv g cmd)) \<and>
         calls (executeCommand sv g cmd) =
           [NarrativeAction cmd (join [CHR 0x0A] (map entry_text (slice_last 5 (history g))))
              (inventory g) (currentSceneId g),
            VisualUpdate (scene_id r) (visual_description r) (trigger_visual_update r)
              (interactables r),
            SceneImage (visual_description r),
            PlayAudio (narrative r)]"
proof -
  note f = handleVisualUpdate_failed [OF assms(5,6)]
  note e = executeCommand_visual [OF assms(1-4) f]
  show ?thesis by (simp add: f e)
qed

theorem executeCommand_image_failure_witness:
  "fst (handleVisualUpdate dark_services lighthouse_base lighthouse_base ''lighthouse_base''
          ''a lighthouse with a broken window'' True [''lantern'']) = (None, Some []) \<and>
   imageUrl (final (executeCommand dark_services lighthouse_base ''smash window'')) =
     Some ''data:image/png;base64,AAAA'' \<and>
   raised (executeCommand dark_services lighthouse_base ''smash window'') = None"
proof -
  have r: "turn_response dark_services lighthouse_base ''smash window'' = Some smash_response"
    by (simp add: turn_response_def processGameAction_def dark_services_def lighthouse_services_def)
  have n: "Some (scene_id smash_response) \<noteq> currentSceneId lighthouse_base \<or>
           trigger_visual_update smash_response"
    and m: "trigger_visual_update smash_response \<or>
            \<not> truthy_looked_up (cache_get (sceneCache lighthouse_base) (scene_id smash_response))"
    by (simp_all add: smash_response_def)
  have i: "fst (generateSceneImage dark_services (visual_description smash_response)) = None"
    by (simp add: generateSceneImage_def dark_services_def)
  from executeCommand_image_failure [OF lighthouse_guard r n m i, of lighthouse_base]
  show ?thesis by (simp add: smash_response_def lighthouse_base_def)
qed

text \<open>
  The claim as stated fails: the failed call changes what the player sees. Before the
  turn below the lantern is a hotspot of the displayed scene, outlined and labelled
  under the pointer; after it the same image is displayed without any hotspot.
\<close>

theorem executeCommand_image_failure_counterexample:
  "fst (generateSceneImage dark_services ''a lighthouse with a broken window'') = None \<and>
   hotspots lighthouse_base = [lantern_entry] \<and>
   hotspots (final (executeCommand dark_services lighthouse_base ''smash window'')) = [] \<and>
   imageUrl (final (executeCommand dark_services lighthouse_base ''smash window'')) =
     imageUrl lighthouse_base"
proof -
  have r: "turn_response dark_services lighthouse_base ''smash window'' = Some smash_response"
    by (simp add: turn_response_def processGameAction_def dark_services_def lighthouse_services_def)
  have n: "Some (scene_id smash_response) \<noteq> currentSceneId lighthouse_base \<or>
           trigger_visual_update smash_response"
    and m: "trigger_visual_update smash_response \<or>
            \<not> truthy_looked_up (cache_get (sceneCache lighthouse_base) (scene_id smash_response))"
    by (simp_all add: smash_response_def)
  have i: "fst (generateSceneImage dark_services (visual_description smash_response)) = None"
    by (simp add: generateSceneImage_def dark_services_def)
  note e = executeCommand_visual [OF lighthouse_guard r n handleVisualUpdate_failed [OF m i]]
  have "hotspots lighthouse_base = [lantern_entry]" by (simp add: lighthouse_base_def)
  moreover have "fst (generateSceneImage dark_services ''a lighthouse with a broken window'') = None"
    by (simp add: generateSceneImage_def dark_services_def)
  moreover have "hotspots (final (executeCommand dark_services lighthouse_base ''smash window'')) = []"
    by (simp add: e)
  moreover have "imageUrl (final (executeCommand dark_services lighthouse_base ''smash window'')) =
     imageUrl lighthouse_base"
    by (simp add: e)
  ultimately show ?thesis by simp
qed

section \<open>Starting a game\<close>

lemma generateAdventureStart_log:
  "snd (generateAdventureStart sv th) = [NarrativeStart th]"
  by (simp add: generateAdventureStart_def Let_def)


lemma handleStartGame_commit:
  assumes "fst (generateAdventureStart sv th) = Some r"
    and "handleVisualUpdate sv g
           (g\<lparr>isPlaying := True, isLoading := True,
              loadingMessage := ''Initializing World...'', theme := th\<rparr>)
           (scene_id r) (visual_description r) True (interactables r) = ((im, Some hs), p', ev)"
  shows "handleStartGame sv g th =
    \<lparr>final = p'\<lparr>
        isLoading := False,
        currentSceneId := Some (scene_id r),
        imageUrl := im,
        hotspots := hs,
        history := [\<lparr>entry_type = narrator, entry_text = narrative r\<rparr>],
        inventory := (case inventory_add r of None \<Rightarrow> [] | Some a \<Rightarrow> if a \<noteq> [] then [a] else []),
        sceneCache :=
          \<lparr>own_props = [scene_id r \<mapsto>
             \<lparr>id_sd = scene_id r, visualDescription_sd = visual_description r,
              imageUrl_sd = (case im of None \<Rightarrow> [] | Some u \<Rightarrow> u),
              hotspots_sd = hs, interactables_sd = interactables r\<rparr>],
           prototype = None\<rparr>\<rparr>,
     calls = NarrativeStart th # ev @ [PlayAudio (narrative r)], raised = None\<rparr>"
proof -
  obtain resp ev0 where s: "generateAdventureStart sv th = (resp, ev0)"
    by (cases "generateAdventureStart sv th")
  with assms(1) generateAdventureStart_log [of sv th]
  have "resp = Some r" "ev0 = [NarrativeStart th]" by simp_all
  with s assms(2) show ?thesis by (simp add: handleStartGame_def)
qed

text \<open>The policy's answer at the start of a game, with its hotspots defined.\<close>

lemma handleStartGame_visuals:
  "\<exists>im hs p' ev. handleVisualUpdate sv g p sceneId visualDesc True items = ((im, Some hs), p', ev)"
proof -
  from handleVisualUpdate_forced [of sv g p sceneId visualDesc items]
  obtain hs where "snd (fst (handleVisualUpdate sv g p sceneId visualDesc True items)) = Some hs" ..
  then show ?thesis
    by (cases "handleVisualUpdate sv g p sceneId visualDesc True items") auto
qed


text \<open>
  The scenario of the specification: starting the lighthouse game from the initial state
  gives the state that the examples of the turns start from.
\<close>

lemma lighthouse_start:
  "handleStartGame lighthouse_services INITIAL_STATE ''haunted lighthouse'' =
     \<lparr>final = lighthouse_base,
      calls = [NarrativeStart ''haunted lighthouse'',
               VisualUpdate ''lighthouse_base'' ''a lighthouse at dusk'' True [''lantern''],
               SceneImage ''a lighthouse at dusk'',
               SceneHotspots ''data:image/png;base64,AAAA'' [''lantern''],
               PlayAudio ''You arrive.''],
      raised = None\<rparr>"
proof -
  have r: "fst (generateAdventureStart lighthouse_services ''haunted lighthouse'') = Some arrive_response"
    by (simp add: generateAdventureStart_def lighthouse_services_def)
  have m: "True \<or> \<not> truthy_looked_up (cache_get (sceneCache INITIAL_STATE) (scene_id arrive_response))"
    by simp
  have i: "fst (generateSceneImage lighthouse_services (visual_description arrive_response)) =
             Some ''data:image/png;base64,AAAA''"
    by (simp add: generateSceneImage_def lighthouse_services_def)
  have d: "detectSceneHotspots lighthouse_services ''data:image/png;base64,AAAA''
             (interactables arrive_response) =
             ([lantern_entry], [SceneHotspots ''data:image/png;base64,AAAA'' [''lantern'']])"
    by (simp add: detectSceneHotspots_def lighthouse_services_def arrive_response_def
          filter_hotspots_def hotspot_kept_def lantern_entry_def)
  note v = handleVisualUpdate_generated [OF m i]
  show ?thesis
    by (simp add: handleStartGame_commit [OF r v] d)
       (simp add: arrive_response_def INITIAL_STATE_def lighthouse_base_def empty_cache_def)
qed

text \<open>
  Claim C10. When \<^verbatim>\<open>handleStartGame\<close> commits, the scene cache is a fresh object with
  the single own key \<^verbatim>\<open>response.scene_id\<close>, whatever it held before. The entry is written when
  the image request failed as well: its \<^verbatim>\<open>imageUrl\<close> is then the empty string, and the
  displayed \<^verbatim>\<open>imageUrl\<close> is \<^verbatim>\<open>null\<close>.
\<close>

theorem handleStartGame_cache:
  assumes "fst (generateAdventureStart sv th) = Some r"
  shows "sceneCache (final (handleStartGame sv g th)) =
           \<lparr>own_props = [scene_id r \<mapsto>
              \<lparr>id_sd = scene_id r, visualDescription_sd = visual_description r,
               imageUrl_sd = (case imageUrl (final (handleStartGame sv g th)) of
                                None \<Rightarrow> [] | Some u \<Rightarrow> u),
               hotspots_sd = hotspots (final (handleStartGame sv g th)),
               interactables_sd = interactables r\<rparr>],
            prototype = None\<rparr> \<and>
         dom (own_props (sceneCache (final (handleStartGame sv g th)))) = {scene_id r} \<and>
         raised (handleStartGame sv g th) = None \<and>
         (fst (generateSceneImage sv (visual_description r)) = None \<longrightarrow>
            imageUrl (final (handleStartGame sv g th)) = None \<and>
            map_option imageUrl_sd
              (own_props (sceneCache (final (handleStartGame sv g th))) (scene_id r)) =
              Some [])"
proof -
  let ?p0 = "g\<lparr>isPlaying := True, isLoading := True,
              loadingMessage := ''Initializing World...'', theme := th\<rparr>"
  let ?v = "handleVisualUpdate sv g ?p0 (scene_id r) (visual_description r) True (interactables r)"
  from handleStartGame_visuals obtain im hs p' ev where v: "?v = ((im, Some hs), p', ev)"
    by blast
  note c = handleStartGame_commit [OF assms v]
  have 1: "sceneCache (final (handleStartGame sv g th)) =
           \<lparr>own_props = [scene_id r \<mapsto>
              \<lparr>id_sd = scene_id r, visualDescription_sd = visual_description r,
               imageUrl_sd = (case imageUrl (final (handleStartGame sv g th)) of
                                None \<Rightarrow> [] | Some u \<Rightarrow> u),
               hotspots_sd = hotspots (final (handleStartGame sv g th)),
               interactables_sd = interactables r\<rparr>],
            prototype = None\<rparr>"
    by (simp add: c)
  have 2: "dom (own_props (sceneCache (final (handleStartGame sv g th)))) = {scene_id r}"
    by (simp add: c)
  have 3: "raised (handleStartGame sv g th) = None"
    by (simp add: c)
  have 4: "fst (generateSceneImage sv (visual_description r)) = None \<longrightarrow>
            imageUrl (final (handleStartGame sv g th)) = None \<and>
            map_option imageUrl_sd
              (own_props (sceneCache (final (handleStartGame sv g th))) (scene_id r)) =
              Some []"
  proof
    assume f: "fst (generateSceneImage sv (visual_description r)) = None"
    have "True \<or> \<not> truthy_looked_up (cache_get (sceneCache g) (scene_id r))" by simp
    from handleVisualUpdate_failed [OF this f, of ?p0 "interactables r"] v
    have "im = None" by simp
    then show "imageUrl (final (handleStartGame sv g th)) = None \<and>
            map_option imageUrl_sd
              (own_props (sceneCache (final (handleStartGame sv g th))) (scene_id r)) =
              Some []"
      by (simp add: c)
  qed
  show ?thesis by (intro conjI 1 2 3 4)
qed

theorem handleStartGame_cache_witness:
  "own_props (sceneCache lighthouse_base) ''lighthouse_base'' \<noteq> None \<and>
   sceneCache (final (handleStartGame failing_services lighthouse_base ''haunted lighthouse'')) =
     \<lparr>own_props = [''error_room'' \<mapsto>
        \<lparr>id_sd = ''error_room'', visualDescription_sd = ''Static screen'', imageUrl_sd = [],
         hotspots_sd = [], interactables_sd = []\<rparr>],
      prototype = None\<rparr> \<and>
   imageUrl (final (handleStartGame failing_services lighthouse_base ''haunted lighthouse'')) = None"
proof -
  let ?r = "\<lparr>narrative = ''The system is rebooting...'', scene_id = ''error_room'',
             visual_description = ''Static screen'', trigger_visual_update = True,
             interactables = [], inventory_add = None, inventory_remove = None,
             is_game_over = None\<rparr>"
  let ?run = "handleStartGame failing_services lighthouse_base ''haunted lighthouse''"
  have r: "fst (generateAdventureStart failing_services ''haunted lighthouse'') = Some ?r"
    by (simp add: generateAdventureStart_def failing_services_def)
  have i: "fst (generateSceneImage failing_services (visual_description ?r)) = None"
    by (simp add: generateSceneImage_def failing_services_def)
  note t = handleStartGame_cache [OF r, of lighthouse_base]
  note cache = t [THEN conjunct1]
  note img = t [THEN conjunct2, THEN conjunct2, THEN conjunct2, rule_format, OF i, THEN conjunct1]
  have hs: "hotspots (final ?run) = []"
  proof -
    have "True \<or> \<not> truthy_looked_up (cache_get (sceneCache lighthouse_base) (scene_id ?r))"
      by simp
    note f = handleVisualUpdate_failed [OF this i]
    show ?thesis by (simp add: handleStartGame_commit [OF r f])
  qed
  have "own_props (sceneCache lighthouse_base) ''lighthouse_base'' \<noteq> None"
    by (simp add: lighthouse_base_def)
  moreover have "sceneCache (final ?run) =
     \<lparr>own_props = [''error_room'' \<mapsto>
        \<lparr>id_sd = ''error_room'', visualDescription_sd = ''Static screen'', imageUrl_sd = [],
         hotspots_sd = [], interactables_sd = []\<rparr>],
      prototype = None\<rparr>"
    using cache by (simp add: img hs)
  ultimately show ?thesis using img by simp
qed

section \<open>Completion of a turn\<close>

text \<open>
  The policy returns hotspots unless it answers from the cache with an inherited value
  that is no artifact.
\<close>

lemma handleVisualUpdate_hotspots:
  assumes "triggerUpdate \<or> cache_get (sceneCache g) sceneId \<noteq> Inherited True"
  shows "\<exists>im hs p' ev. handleVisualUpdate sv g p sceneId visualDesc triggerUpdate items =
           ((im, Some hs), p', ev)"
proof (cases "triggerUpdate \<or> \<not> truthy_looked_up (cache_get (sceneCache g) sceneId)")
  case True
  show ?thesis
  proof (cases "fst (generateSceneImage sv visualDesc)")
    case None
    show ?thesis by (simp add: handleVisualUpdate_failed [OF True None])
  next
    case (Some img)
    show ?thesis by (simp add: handleVisualUpdate_generated [OF True Some])
  qed
next
  case False
  then have t: "\<not> triggerUpdate" "truthy_looked_up (cache_get (sceneCache g) sceneId)" by auto
  with assms obtain cached where "cache_get (sceneCache g) sceneId = Cached cached"
    by (cases "cache_get (sceneCache g) sceneId") auto
  from handleVisualUpdate_hit [OF t(1) this] show ?thesis by simp
qed

text \<open>
  A turn with a response commits, unless its scene id is new, comes without the trigger
  and reads from the cache as an inherited value.
\<close>

lemma executeCommand_commits:
  assumes "\<not> isLoading g" "\<not> gameOver g" "turn_response sv g cmd = Some r"
    and "Some (scene_id r) = currentSceneId g \<or> trigger_visual_update r \<or>
         cache_get (sceneCache g) (scene_id r) \<noteq> Inherited True"
  shows "raised (executeCommand sv g cmd) = None \<and>
         \<not> isLoading (final (executeCommand sv g cmd)) \<and>
         history (final (executeCommand sv g cmd)) =
           history g @ [\<lparr>entry_type = command, entry_text = ''> '' @ cmd\<rparr>,
                        \<lparr>entry_type = narrator, entry_text = narrative r\<rparr>] \<and>
         inventory (final (executeCommand sv g cmd)) =
           update_inventory (inventory g) (inventory_add r) (inventory_remove r)"
proof (cases "Some (scene_id r) \<noteq> currentSceneId g \<or> trigger_visual_update r")
  case True
  let ?p0 = "g\<lparr>history := history g @ [\<lparr>entry_type = command, entry_text = ''> '' @ cmd\<rparr>],
              isLoading := True, loadingMessage := ''Thinking...''\<rparr>"
  from True assms(4)
  have "trigger_visual_update r \<or> cache_get (sceneCache g) (scene_id r) \<noteq> Inherited True"
    by auto
  from handleVisualUpdate_hotspots [OF this]
  obtain im hs p' ev where
    v: "handleVisualUpdate sv g ?p0 (scene_id r) (visual_description r)
          (trigger_visual_update r) (interactables r) = ((im, Some hs), p', ev)"
    by blast
  show ?thesis by (simp add: executeCommand_visual [OF assms(1,2,3) True v])
next
  case False
  then have same: "Some (scene_id r) = currentSceneId g" "\<not> trigger_visual_update r" by auto
  show ?thesis by (simp add: executeCommand_same [OF assms(1,2,3) same])
qed


section \<open>The inventory\<close>








section \<open>Failures of the narrative service\<close>

lemma handleVisualUpdate_services:
  assumes "sceneImage sv = sceneImage sv'" "sceneHotspots sv = sceneHotspots sv'"
  shows "handleVisualUpdate sv g p a b c d = handleVisualUpdate sv' g p a b c d"
proof -
  have i: "\<And>x. generateSceneImage sv x = generateSceneImage sv' x"
    by (simp add: generateSceneImage_def assms(1))
  have h: "\<And>x y. detectSceneHotspots sv x y = detectSceneHotspots sv' x y"
    by (simp add: detectSceneHotspots_def assms(2))
  show ?thesis unfolding handleVisualUpdate_def i h by (rule refl)
qed

lemma executeCommand_services:
  assumes "sceneImage sv = sceneImage sv'" "sceneHotspots sv = sceneHotspots sv'"
    and "processGameAction sv cmd (join [CHR 0x0A] (map entry_text (slice_last 5 (history g))))
           (inventory g) (currentSceneId g) =
         processGameAction sv' cmd (join [CHR 0x0A] (map entry_text (slice_last 5 (history g))))
           (inventory g) (currentSceneId g)"
  shows "executeCommand sv g cmd = executeCommand sv' g cmd"
  unfolding executeCommand_def Let_def assms(3) handleVisualUpdate_services [OF assms(1,2)]
  by (rule refl)

lemma handleStartGame_completes:
  assumes "fst (generateAdventureStart sv th) = Some r"
  shows "raised (handleStartGame sv g th) = None \<and> \<not> isLoading (final (handleStartGame sv g th))"
proof -
  let ?v = "handleVisualUpdate sv g
           (g\<lparr>isPlaying := True, isLoading := True,
              loadingMessage := ''Initializing World...'', theme := th\<rparr>)
           (scene_id r) (visual_description r) True (interactables r)"
  from handleStartGame_visuals obtain im hs p' ev where v: "?v = ((im, Some hs), p', ev)"
    by blast
  show ?thesis by (simp add: handleStartGame_commit [OF assms v])
qed

text \<open>
  Claim C8, as the code has it. When the narrative request of a turn rejects, comes back
  without text, or comes back with text that does not parse, \<^verbatim>\<open>processGameAction\<close>
  substitutes its fallback (the apology, the current scene id or \<^verbatim>\<open>unknown\<close>, no visual
  trigger, no interactables); the turn raises nothing, ends with \<^verbatim>\<open>isLoading\<close> false,
  and is the very turn that a service answering with the fallback would give. At the
  start of a game the same three failures give the fallback of
  \<^verbatim>\<open>generateAdventureStart\<close>, and \<^verbatim>\<open>handleStartGame\<close> completes. A text that parses is
  not checked against the shape of a response.
\<close>

theorem executeCommand_fallback:
  assumes "\<not> isLoading g" "\<not> gameOver g"
    and "gameAction sv cmd (join [CHR 0x0A] (map entry_text (slice_last 5 (history g))))
           (inventory g) (currentSceneId g) \<in> {CallFailed, EmptyText, Unparseable}"
  shows "turn_response sv g cmd = Some (action_fallback (currentSceneId g)) \<and>
         narrative (action_fallback (currentSceneId g)) =
           ''I didn'' @ [CHR 0x27] @ ''t quite get that.'' \<and>
         scene_id (action_fallback (currentSceneId g)) =
           (case currentSceneId g of None \<Rightarrow> ''unknown''
            | Some c \<Rightarrow> if c = [] then ''unknown'' else c) \<and>
         \<not> trigger_visual_update (action_fallback (currentSceneId g)) \<and>
         interactables (action_fallback (currentSceneId g)) = [] \<and>
         raised (executeCommand sv g cmd) = None \<and>
         \<not> isLoading (final (executeCommand sv g cmd)) \<and>
         history (final (executeCommand sv g cmd)) =
           history g @ [\<lparr>entry_type = command, entry_text = ''> '' @ cmd\<rparr>,
                        \<lparr>entry_type = narrator,
                         entry_text = ''I didn'' @ [CHR 0x27] @ ''t quite get that.''\<rparr>] \<and>
         executeCommand sv g cmd =
           executeCommand
             (sv\<lparr>gameAction := (\<lambda>a h i c. ParsedResponse (action_fallback (currentSceneId g)))\<rparr>)
             g cmd \<and>
         (adventureStart sv' th \<in> {CallFailed, EmptyText, Unparseable} \<longrightarrow>
            fst (generateAdventureStart sv' th) =
              Some \<lparr>narrative = ''The system is rebooting...'', scene_id = ''error_room'',
                    visual_description = ''Static screen'', trigger_visual_update = True,
                    interactables = [], inventory_add = None, inventory_remove = None,
                    is_game_over = None\<rparr> \<and>
            raised (handleStartGame sv' g' th) = None \<and>
            \<not> isLoading (final (handleStartGame sv' g' th)))"
proof -
  let ?h = "join [CHR 0x0A] (map entry_text (slice_last 5 (history g)))"
  let ?f = "action_fallback (currentSceneId g)"
  let ?sv = "sv\<lparr>gameAction := (\<lambda>a h i c. ParsedResponse ?f)\<rparr>"
  have p: "processGameAction sv cmd ?h (inventory g) (currentSceneId g) =
             (Some ?f, [NarrativeAction cmd ?h (inventory g) (currentSceneId g)])"
    using assms(3) by (auto simp: processGameAction_def)
  have p': "processGameAction ?sv cmd ?h (inventory g) (currentSceneId g) =
             (Some ?f, [NarrativeAction cmd ?h (inventory g) (currentSceneId g)])"
    by (simp add: processGameAction_def)
  have 1: "turn_response sv g cmd = Some ?f" by (simp add: turn_response_def p)
  have 2: "narrative ?f = ''I didn'' @ [CHR 0x27] @ ''t quite get that.''"
    by (simp add: action_fallback_def)
  have 3: "scene_id ?f = (case currentSceneId g of None \<Rightarrow> ''unknown''
            | Some c \<Rightarrow> if c = [] then ''unknown'' else c)"
    by (simp add: action_fallback_def split: option.splits)
  have 4: "\<not> trigger_visual_update ?f" by (simp add: action_fallback_def)
  have 5: "interactables ?f = []" by (simp add: action_fallback_def)
  have "Some (scene_id ?f) = currentSceneId g \<or> trigger_visual_update ?f \<or>
          cache_get (sceneCache g) (scene_id ?f) \<noteq> Inherited True"
  proof (cases "currentSceneId g")
    case None
    then show ?thesis by (simp add: action_fallback_def cache_get_unknown)
  next
    case (Some c)
    then show ?thesis by (cases "c = []") (simp_all add: action_fallback_def cache_get_unknown)
  qed
  note c = executeCommand_commits [OF assms(1,2) 1 this]
  have 6: "raised (executeCommand sv g cmd) = None" using c by simp
  have 7: "\<not> isLoading (final (executeCommand sv g cmd))" using c by simp
  have 8: "history (final (executeCommand sv g cmd)) =
           history g @ [\<lparr>entry_type = command, entry_text = ''> '' @ cmd\<rparr>,
                        \<lparr>entry_type = narrator,
                         entry_text = ''I didn'' @ [CHR 0x27] @ ''t quite get that.''\<rparr>]"
    using c unfolding 2 by simp
  have 9: "executeCommand sv g cmd = executeCommand ?sv g cmd"
    by (rule executeCommand_services) (simp_all add: p p')
  have 10: "adventureStart sv' th \<in> {CallFailed, EmptyText, Unparseable} \<longrightarrow>
            fst (generateAdventureStart sv' th) =
              Some \<lparr>narrative = ''The system is rebooting...'', scene_id = ''error_room'',
                    visual_description = ''Static screen'', trigger_visual_update = True,
                    interactables = [], inventory_add = None, inventory_remove = None,
                    is_game_over = None\<rparr> \<and>
            raised (handleStartGame sv' g' th) = None \<and>
            \<not> isLoading (final (handleStartGame sv' g' th))"
  proof
    assume a: "adventureStart sv' th \<in> {CallFailed, EmptyText, Unparseable}"
    then have f: "fst (generateAdventureStart sv' th) =
              Some \<lparr>narrative = ''The system is rebooting...'', scene_id = ''error_room'',
                    visual_description = ''Static screen'', trigger_visual_update = True,
                    interactables = [], inventory_add = None, inventory_remove = None,
                    is_game_over = None\<rparr>"
      by (auto simp: generateAdventureStart_def)
    from f handleStartGame_completes [OF f, of g']
    show "fst (generateAdventureStart sv' th) =
              Some \<lparr>narrative = ''The system is rebooting...'', scene_id = ''error_room'',
                    visual_description = ''Static screen'', trigger_visual_update = True,
                    interactables = [], inventory_add = None, inventory_remove = None,
                    is_game_over = None\<rparr> \<and>
            raised (handleStartGame sv' g' th) = None \<and>
            \<not> isLoading (final (handleStartGame sv' g' th))"
      by simp
  qed
  show ?thesis by (intro conjI 1 2 3 4 5 6 7 8 9 10)
qed

theorem executeCommand_fallback_witness:
  "executeCommand failing_services lighthouse_base ''look'' =
     \<lparr>final = lighthouse_base\<lparr>
        history := [\<lparr>entry_type = narrator, entry_text = ''You arrive.''\<rparr>,
                    \<lparr>entry_type = command, entry_text = ''> look''\<rparr>,
                    \<lparr>entry_type = narrator,
                     entry_text = ''I didn'' @ [CHR 0x27] @ ''t quite get that.''\<rparr>],
        loadingMessage := ''Thinking...'',
        sceneCache := \<lparr>own_props = [''lighthouse_base'' \<mapsto>
          \<lparr>id_sd = ''lighthouse_base'', visualDescription_sd = ''No change.'',
           imageUrl_sd = ''data:image/png;base64,AAAA'', hotspots_sd = [lantern_entry],
           interactables_sd = []\<rparr>], prototype = None\<rparr>\<rparr>,
      calls = [NarrativeAction ''look'' ''You arrive.'' [] (Some ''lighthouse_base''),
               PlayAudio (''I didn'' @ [CHR 0x27] @ ''t quite get that.'')],
      raised = None\<rparr> \<and>
   raised (handleStartGame failing_services INITIAL_STATE ''haunted lighthouse'') = None \<and>
   \<not> isLoading (final (handleStartGame failing_services INITIAL_STATE ''haunted lighthouse''))"
proof -
  have h: "history lighthouse_base = [\<lparr>entry_type = narrator, entry_text = ''You arrive.''\<rparr>]"
    "inventory lighthouse_base = []" "currentSceneId lighthouse_base = Some ''lighthouse_base''"
    "imageUrl lighthouse_base = Some ''data:image/png;base64,AAAA''"
    "hotspots lighthouse_base = [lantern_entry]"
    by (simp_all add: lighthouse_base_def)
  have a: "gameAction failing_services ''look''
             (join [CHR 0x0A] (map entry_text (slice_last 5 (history lighthouse_base))))
             (inventory lighthouse_base) (currentSceneId lighthouse_base)
           \<in> {CallFailed, EmptyText, Unparseable}"
    by (simp add: failing_services_def)
  note t = executeCommand_fallback [OF lighthouse_guard a]
  note r = t [THEN conjunct1]
  have s: "Some (scene_id (action_fallback (currentSceneId lighthouse_base))) =
             currentSceneId lighthouse_base"
    "\<not> trigger_visual_update (action_fallback (currentSceneId lighthouse_base))"
    by (simp_all add: action_fallback_def h)
  have b: "adventureStart failing_services ''haunted lighthouse''
             \<in> {CallFailed, EmptyText, Unparseable}"
    by (simp add: failing_services_def)
  note start = t [THEN conjunct2, THEN conjunct2, THEN conjunct2, THEN conjunct2, THEN conjunct2,
      THEN conjunct2, THEN conjunct2, THEN conjunct2, THEN conjunct2, rule_format,
      of failing_services "''haunted lighthouse''" INITIAL_STATE, OF b]
  have "executeCommand failing_services lighthouse_base ''look'' =
     \<lparr>final = lighthouse_base\<lparr>
        history := [\<lparr>entry_type = narrator, entry_text = ''You arrive.''\<rparr>,
                    \<lparr>entry_type = command, entry_text = ''> look''\<rparr>,
                    \<lparr>entry_type = narrator,
                     entry_text = ''I didn'' @ [CHR 0x27] @ ''t quite get that.''\<rparr>],
        loadingMessage := ''Thinking...'',
        sceneCache := \<lparr>own_props = [''lighthouse_base'' \<mapsto>
          \<lparr>id_sd = ''lighthouse_base'', visualDescription_sd = ''No change.'',
           imageUrl_sd = ''data:image/png;base64,AAAA'', hotspots_sd = [lantern_entry],
           interactables_sd = []\<rparr>], prototype = None\<rparr>\<rparr>,
      calls = [NarrativeAction ''look'' ''You arrive.'' [] (Some ''lighthouse_base''),
               PlayAudio (''I didn'' @ [CHR 0x27] @ ''t quite get that.'')],
      raised = None\<rparr>"
    by (simp add: executeCommand_same [OF lighthouse_guard r s] h slice_last_def
          action_fallback_def update_inventory_def)
       (simp add: lighthouse_base_def cache_set_def cache_spread_def)
  with start show ?thesis by simp
qed

text \<open>
  The claim as stated fails for content that parses but is not a response: with the
  text \<^verbatim>\<open>null\<close> the turn rejects with a \<^verbatim>\<open>TypeError\<close> and \<^verbatim>\<open>isLoading\<close> stays true.
\<close>

theorem executeCommand_null_counterexample:
  "raised (executeCommand null_services lighthouse_base ''look'') = Some TypeError \<and>
   isLoading (final (executeCommand null_services lighthouse_base ''look''))"
proof -
  have r: "turn_response null_services lighthouse_base ''look'' = None"
    by (simp add: turn_response_def processGameAction_def null_services_def)
  show ?thesis by (simp add: executeCommand_null [OF lighthouse_guard r])
qed

end
